theory Spec2Isabelle
  imports Main "HOL-Library.AList" "HOL-Library.Sublist"
begin

section \<open>Python strings\<close>

text \<open>
  A Python \<open>str\<close> is modelled as a \<open>string\<close>, one \<open>char\<close> per code point, so the model
  covers the code points below 256. \<open>str.isspace\<close> and the regex class \<open>\s\<close> hold there for
  the code points 9-13, 28-32, 133 and 160.
\<close>

definition py_is_space :: "char \<Rightarrow> bool" where
  "py_is_space c = (of_char c \<in> set [9, 10, 11, 12, 13, 28, 29, 30, 31, 32, 133, 160 :: nat])"

text \<open>\<open>s.strip()\<close> and \<open>s.strip('-')\<close>.\<close>

definition py_strip :: "string \<Rightarrow> string" where
  "py_strip s = rev (dropWhile py_is_space (rev (dropWhile py_is_space s)))"

definition strip_char :: "char \<Rightarrow> string \<Rightarrow> string" where
  "strip_char d s = rev (dropWhile (\<lambda>c. c = d) (rev (dropWhile (\<lambda>c. c = d) s)))"

text \<open>
  \<open>s.lower()\<close>: the letters A-Z, and the cased letters of the upper half (192-222 but 215),
  move up by 32, which sets the bit of weight 32.
\<close>

definition py_lower_char :: "char \<Rightarrow> char" where
  "py_lower_char c =
     (let n = (of_char c :: nat)
      in if (65 \<le> n \<and> n \<le> 90) \<or> (192 \<le> n \<and> n \<le> 222 \<and> n \<noteq> 215)
         then (case c of Char b0 b1 b2 b3 b4 b5 b6 b7 \<Rightarrow> Char b0 b1 b2 b3 b4 True b6 b7)
         else c)"

definition py_lower :: "string \<Rightarrow> string" where
  "py_lower s = map py_lower_char s"

text \<open>
  \<open>s.upper() == s\<close> holds exactly when no character of \<open>s\<close> is changed by upper-casing: the
  letters a-z, and in the upper half the code points 181, 223-246 and 248-255.
\<close>

definition upper_changes :: "char \<Rightarrow> bool" where
  "upper_changes c =
     (let n = (of_char c :: nat)
      in (97 \<le> n \<and> n \<le> 122) \<or> n = 181 \<or> (223 \<le> n \<and> n \<le> 246) \<or> (248 \<le> n \<and> n \<le> 255))"

definition upper_is_self :: "string \<Rightarrow> bool" where
  "upper_is_self s = list_all (\<lambda>c. \<not> upper_changes c) s"

text \<open>\<open>s.replace(c, r)\<close> for a one-character pattern.\<close>

definition replace_char :: "char \<Rightarrow> string \<Rightarrow> string \<Rightarrow> string" where
  "replace_char c r s = concat (map (\<lambda>x. if x = c then r else [x]) s)"

text \<open>\<open>len(s.split())\<close>: the number of maximal runs of characters that are not white space.\<close>

fun count_words :: "bool \<Rightarrow> string \<Rightarrow> nat" where
  "count_words in_word [] = 0"
| "count_words in_word (c # cs) =
     (if py_is_space c then count_words False cs
      else if in_word then count_words True cs
      else Suc (count_words True cs))"

text \<open>Decimal rendering of integers, as \<open>str(n)\<close> and the f-string fields \<open>{n}\<close> give it.\<close>

fun show_nat :: "nat \<Rightarrow> string" where
  "show_nat n =
     (if n < 10 then [''0123456789'' ! n]
      else show_nat (n div 10) @ [''0123456789'' ! (n mod 10)])"

declare show_nat.simps [simp del]

definition show_int :: "int \<Rightarrow> string" where
  "show_int i = (if i < 0 then CHR ''-'' # show_nat (nat (- i)) else show_nat (nat i))"

subsection \<open>The regular expressions of the source\<close>

text \<open>
  \<open>re.sub(P + '+', r, s)\<close> for a character class \<open>P\<close> and a one-character replacement:
  every maximal run of characters in the class becomes one \<open>r\<close>. The flag tells whether the
  previous character was in a run already replaced.
\<close>

fun sub_runs :: "(char \<Rightarrow> bool) \<Rightarrow> char \<Rightarrow> bool \<Rightarrow> string \<Rightarrow> string" where
  "sub_runs P r in_run [] = []"
| "sub_runs P r in_run (c # cs) =
     (if P c then (if in_run then sub_runs P r True cs else r # sub_runs P r True cs)
      else c # sub_runs P r False cs)"

text \<open>The class \<open>[a-zA-Z0-9\-_]\<close>.\<close>

definition id_char :: "char \<Rightarrow> bool" where
  "id_char c =
     (let n = (of_char c :: nat)
      in (97 \<le> n \<and> n \<le> 122) \<or> (65 \<le> n \<and> n \<le> 90) \<or> (48 \<le> n \<and> n \<le> 57) \<or> n = 45 \<or> n = 95)"

text \<open>
  \<open>re.sub(r'<[^>]+>', '', s)\<close>: at a \<open><\<close> that is followed by at least one character
  other than \<open>>\<close> and then a \<open>>\<close>, everything up to that \<open>>\<close> is dropped.
\<close>

function strip_tags :: "string \<Rightarrow> string" where
  "strip_tags [] = []"
| "strip_tags (c # cs) =
     (if c = CHR ''<'' \<and> takeWhile (\<lambda>x. x \<noteq> CHR ''>'') cs \<noteq> []
         \<and> dropWhile (\<lambda>x. x \<noteq> CHR ''>'') cs \<noteq> []
      then strip_tags (tl (dropWhile (\<lambda>x. x \<noteq> CHR ''>'') cs))
      else c # strip_tags cs)"
  by pat_completeness auto
termination
  by (relation "measure length")
     (auto simp: less_Suc_eq_le intro: order_trans [OF diff_le_self length_dropWhile_le])

text \<open>
  \<open>re.match(r'^\s*\d+[\.\)]', s)\<close>: white space, at least one digit, then a full stop or a
  closing parenthesis.
\<close>

definition is_digit :: "char \<Rightarrow> bool" where
  "is_digit c = (let n = (of_char c :: nat) in 48 \<le> n \<and> n \<le> 57)"

definition enumerator_match :: "string \<Rightarrow> bool" where
  "enumerator_match s =
     (let t = dropWhile py_is_space s;
          u = dropWhile is_digit t
      in takeWhile is_digit t \<noteq> [] \<and>
         (case u of [] \<Rightarrow> False | c # _ \<Rightarrow> c = CHR ''.'' \<or> c = CHR '')''))"

subsection \<open>Escaping\<close>

text \<open>\<open>html.escape(s)\<close> with its default \<open>quote=True\<close>.\<close>

definition html_escape :: "string \<Rightarrow> string" where
  \<open>html_escape s =
     replace_char (CHR 0x27) ''&#x27;''
       (replace_char (CHR 0x22) ''&quot;''
         (replace_char CHR ''>'' ''&gt;''
           (replace_char CHR ''<'' ''&lt;''
             (replace_char CHR ''&'' ''&amp;'' s))))\<close>

definition attr_escape :: "string \<Rightarrow> string" where
  \<open>attr_escape s =
     replace_char CHR ''>'' ''&gt;''
       (replace_char CHR ''<'' ''&lt;''
         (replace_char (CHR 0x27) ''&#x27;''
           (replace_char (CHR 0x22) ''&quot;''
             (replace_char CHR ''&'' ''&amp;'' s))))\<close>

text \<open>
  \<open>_sanitize_id(x, idx)\<close>, the definition of the source file. The second argument is the
  text that \<open>{idx or 0}\<close> formats to.
\<close>

definition sanitize_id :: "string \<Rightarrow> string \<Rightarrow> string" where
  "sanitize_id x idx =
     (let s = sub_runs (\<lambda>c. \<not> id_char c) CHR ''-'' False (py_lower (py_strip x));
          s = strip_char CHR ''-'' (sub_runs (\<lambda>c. c = CHR ''-'') CHR ''-'' False s)
      in if s = [] then ''id-'' @ idx else s)"

definition safe_caption :: "string \<Rightarrow> string" where
  "safe_caption text = (let s = py_strip text in if s = [] then [] else html_escape (strip_tags s))"


section \<open>Data model\<close>

text \<open>
  A cell value is a nullable scalar. \<open>py_str\<close> is \<open>str(v)\<close>, \<open>truthy\<close> is the truth value
  Python gives \<open>v\<close>, and \<open>str_or_empty\<close> is \<open>str(v or "")\<close>.
\<close>

datatype scalar = SNone | SStr string | SInt int

fun py_str :: "scalar \<Rightarrow> string" where
  "py_str SNone = ''None''"
| "py_str (SStr s) = s"
| "py_str (SInt i) = show_int i"

fun truthy :: "scalar \<Rightarrow> bool" where
  "truthy SNone = False"
| "truthy (SStr s) = (s \<noteq> [])"
| "truthy (SInt i) = (i \<noteq> 0)"

definition str_or_empty :: "scalar \<Rightarrow> string" where
  "str_or_empty v = (if truthy v then py_str v else [])"

text \<open>
  A table: its column names, the rows \<open>itertuples\<close> yields, the message of the exception the
  row iterator raises after the last of these rows (if it raises), and the optional
  \<open>title\<close> and \<open>name\<close> attributes.
\<close>

record table_like =
  df_columns :: "string list"
  df_rows :: "scalar list list"
  df_iter_error :: "string option"
  df_title :: "string option"
  df_name :: "string option"

datatype level = Warn | Error

record warning =
  w_level :: level
  w_msg :: string
  w_table :: "int option"
  w_row :: "nat option"
  w_col :: "nat option"

definition mk_warning :: "level \<Rightarrow> string \<Rightarrow> int option \<Rightarrow> nat option \<Rightarrow> nat option \<Rightarrow> warning" where
  "mk_warning l m t r c = \<lparr>w_level = l, w_msg = m, w_table = t, w_row = r, w_col = c\<rparr>"

text \<open>
  The fields of \<open>RenderConfig\<close> that the modelled code reads. \<open>cancel_event\<close> is \<open>None\<close> or
  an event; the event is given by what \<open>is_set()\<close> answers at each poll of one table's
  render, the polls counted from 0.
\<close>

record render_config =
  split_threshold :: int
  max_workers :: int
  table_row_limit :: int
  cancel_event :: "(nat \<Rightarrow> bool) option"
  gzip_out :: bool

type_synonym fs = "string \<rightharpoonup> string"

type_synonym row_stream = "scalar list list \<times> string option"

text \<open>
  What the source file takes from outside itself. The first group are the collaborators it
  imports from sibling modules (\<open>None\<close> and \<open>Inl\<close> stand for a call that raises):
  the markdown function behind \<open>renderer.render\<close>, \<open>_sanitize_html_whitelist\<close>,
  \<open>_normalize_list_markers\<close> after \<open>convert_bullets_to_ul\<close>,
  \<open>_unescape_brackets_outside_code\<close>, \<open>_detect_column_types\<close>, \<open>_take_and_stream\<close>,
  \<open>convert_render_table\<close> (absent or present), together with the library calls
  \<open>html.unescape\<close>, the two metadata searches of \<open>render_html\<close>, \<open>df.to_html\<close> and gzip
  compression. The second group is the file system's behaviour: opening a path for writing
  and renaming onto a path may raise, as may creating the fragment directory. The third group
  is what the set-up code of \<open>render_html\<close> (directories, assets, head, sticky header and
  script blocks) hands to the part modelled here.
\<close>

record env =
  markdown_to_html :: "string \<Rightarrow> string option"
  sanitize_html_whitelist :: "string \<Rightarrow> string option"
  normalize_cell :: "string \<Rightarrow> string + string"
  unescape_brackets :: "string \<Rightarrow> string option"
  detect_column_types :: "scalar list list \<Rightarrow> string list \<Rightarrow> string list"
  take_and_stream :: "row_stream \<Rightarrow> nat \<Rightarrow> (scalar list list \<times> row_stream) option"
  convert_render_table :: "(table_like \<Rightarrow> nat \<Rightarrow> string + string) option"
  html_unescape :: "string \<Rightarrow> string"
  h3_search :: "string \<Rightarrow> (string \<times> string) option"
  section_finditer :: "string \<Rightarrow> (string \<times> string) list"
  to_html :: "table_like \<Rightarrow> string option"
  gzip_compress :: "string \<Rightarrow> string"
  open_fails :: "string \<Rightarrow> string option"
  replace_fails :: "string \<Rightarrow> string option"
  now_ms :: nat
  mkdir_frag_fails :: bool
  setup_warnings :: "warning list"
  head_parts :: "string list"
  page_title_esc :: string
  bottom_parts :: "string list"

section \<open>Atomic write and line count\<close>

text \<open>
  \<open>_default_write_atomic(path, writer)\<close>. The writer is given by the text it writes and the
  exception it ends with, if any. Opening the sibling \<open>.tmp\<close> path may raise, then nothing is
  written; the writer may raise, then the temporary file keeps what was written and is not
  renamed; \<open>os.replace\<close> may raise, then the temporary file stays beside the destination.
\<close>

datatype write_result = Written | OpenFailed string | WriterFailed string | ReplaceFailed string

definition default_write_atomic :: "env \<Rightarrow> fs \<Rightarrow> string \<Rightarrow> string \<times> string option \<Rightarrow> write_result \<times> fs" where
  "default_write_atomic e fs path writer =
     (let tmp = path @ ''.tmp''
      in case open_fails e tmp of
           Some err \<Rightarrow> (OpenFailed err, fs)
         | None \<Rightarrow>
            (case snd writer of
               Some err \<Rightarrow> (WriterFailed err, fs(tmp \<mapsto> fst writer))
             | None \<Rightarrow>
                (case replace_fails e path of
                   Some err \<Rightarrow> (ReplaceFailed err, fs(tmp \<mapsto> fst writer))
                 | None \<Rightarrow> (Written, (fs(tmp := None))(path \<mapsto> fst writer)))))"

fun write_error :: "write_result \<Rightarrow> string option" where
  "write_error Written = None"
| "write_error (OpenFailed err) = Some err"
| "write_error (WriterFailed err) = Some err"
| "write_error (ReplaceFailed err) = Some err"

text \<open>
  The number of lines a text file yields when iterated in text mode: a line ends at
  \<open>\n\<close>, at \<open>\r\n\<close> or at \<open>\r\<close>, and text after the last line end is a line of its own.
\<close>

fun count_lines :: "string \<Rightarrow> nat" where
  "count_lines [] = 0"
| "count_lines [c] = 1"
| "count_lines (c # d # cs) =
     (if c = CHR 0x0D \<and> d = CHR 0x0A then Suc (count_lines cs)
      else if c = CHR 0x0D \<or> c = CHR 0x0A then Suc (count_lines (d # cs))
      else count_lines (d # cs))"

text \<open>
  What reading a text file gives (\<open>rf.read()\<close>, \<open>shutil.copyfileobj(rf, f)\<close> and
  \<open>read_text\<close> on a file opened in text mode with the default \<open>newline=None\<close>): every
  \<open>\r\n\<close> and every other \<open>\r\<close> arrives as \<open>\n\<close>. Writing is to a file system whose
  line separator is \<open>\n\<close>, so that text is stored as it is written.
\<close>

fun universal_newlines :: "string \<Rightarrow> string" where
  "universal_newlines [] = []"
| "universal_newlines [c] = [if c = CHR 0x0D then CHR 0x0A else c]"
| "universal_newlines (c # d # cs) =
     (if c = CHR 0x0D \<and> d = CHR 0x0A then CHR 0x0A # universal_newlines cs
      else if c = CHR 0x0D then CHR 0x0A # universal_newlines (d # cs)
      else c # universal_newlines (d # cs))"

section \<open>The fragment renderer\<close>

subsection \<open>Row stream and titles\<close>

text \<open>
  \<open>_prepare_table_stream(df)\<close>: the columns, the sample and the row stream. When
  \<open>_take_and_stream\<close> raises, the rows are materialised; when that raises too (the row
  iterator fails), the sample is empty and the stream is the table's own iterator.
\<close>

definition prepare_table_stream :: "env \<Rightarrow> table_like \<Rightarrow> string list \<times> scalar list list \<times> row_stream" where
  "prepare_table_stream e df =
     (case take_and_stream e (df_rows df, df_iter_error df) 100 of
        Some (buf, it2) \<Rightarrow> (df_columns df, buf, it2)
      | None \<Rightarrow>
         (case df_iter_error df of
            None \<Rightarrow> (df_columns df, take 100 (df_rows df), (df_rows df, None))
          | Some err \<Rightarrow> (df_columns df, [], (df_rows df, Some err))))"

text \<open>
  \<open>_derive_titles\<close>. An absent title and an empty one are both the empty string here, as
  both are false in the tests \<open>not title_text\<close> of the source.
\<close>

definition attr_title :: "table_like \<Rightarrow> string" where
  "attr_title df =
     (case df_title df of
        Some t \<Rightarrow> (if t \<noteq> [] then py_strip t
                   else (case df_name df of Some n \<Rightarrow> (if n \<noteq> [] then py_strip n else []) | None \<Rightarrow> []))
      | None \<Rightarrow> (case df_name df of Some n \<Rightarrow> (if n \<noteq> [] then py_strip n else []) | None \<Rightarrow> []))"

definition first_candidate :: "scalar list \<Rightarrow> scalar" where
  "first_candidate first =
     (case first of
        [] \<Rightarrow> SNone
      | c # _ \<Rightarrow>
         (if c = SNone
          then (case filter (\<lambda>v. v \<noteq> SNone \<and> v \<noteq> SStr []) first of [] \<Rightarrow> SNone | v # _ \<Rightarrow> v)
          else c))"

definition sample_title :: "string \<Rightarrow> scalar list list \<Rightarrow> string" where
  "sample_title title_text sample_rows =
     (if title_text = [] \<and> sample_rows \<noteq> []
      then (case first_candidate (hd sample_rows) of
              SNone \<Rightarrow> title_text
            | cand \<Rightarrow> py_strip (py_str cand))
      else title_text)"

definition derive_titles ::
  "env \<Rightarrow> int \<Rightarrow> string list \<Rightarrow> scalar list list \<Rightarrow> table_like \<Rightarrow> string \<times> string \<times> string \<times> string" where
  "derive_titles e idx cols sample_rows df =
     (let t1 = sample_title (attr_title df) sample_rows;
          t2 = (if t1 = [] \<and> cols \<noteq> [] then py_strip (hd cols) else t1);
          t3 = (if t2 = [] then ''Table '' @ show_int idx else t2);
          title_text = py_strip (sub_runs py_is_space CHR '' '' False t3);
          display_title = (if length title_text \<le> 120 then title_text else take 117 title_text @ ''...'');
          title_id = sanitize_id display_title (show_int idx);
          title_html = (case markdown_to_html e display_title of
                          Some h \<Rightarrow> h
                        | None \<Rightarrow> html_escape display_title)
      in (title_text, display_title, title_id, title_html))"

subsection \<open>Header cells\<close>

text \<open>
  The rendered header of a column (\<open>safe_headers_html\<close>) and its plain label
  (\<open>header_plain_labels\<close>).
\<close>

definition header_html :: "env \<Rightarrow> string \<Rightarrow> string" where
  "header_html e c = (case markdown_to_html e c of Some h \<Rightarrow> h | None \<Rightarrow> html_escape c)"

definition header_plain_label :: "env \<Rightarrow> string \<Rightarrow> string" where
  "header_plain_label e c = attr_escape (py_strip (html_unescape e (strip_tags (header_html e c))))"

text \<open>
  The opening tag of a header cell is written from its attributes, in the order of the
  source's f-string: \<open>id\<close>, \<open>class\<close>, \<open>data-table-index\<close>, \<open>data-col-index\<close>,
  \<open>role\<close>, \<open>aria-label\<close>. The writes that follow it, up to the closing tag of the cell,
  are \<open>th_body\<close>.
\<close>

definition th_attrs :: "int \<Rightarrow> string \<Rightarrow> string \<Rightarrow> nat \<Rightarrow> string \<Rightarrow> (string \<times> string) list" where
  "th_attrs idx table_id col_type i col =
     [(''id'', table_id @ ''-th-'' @ show_nat i),
      (''class'', ''col-'' @ col_type),
      (''data-table-index'', show_int (idx - 1)),
      (''data-col-index'', show_nat i),
      (''role'', ''button''),
      (''aria-label'', attr_escape (''Sort by '' @ html_escape (strip_tags col)))]"

definition open_tag :: "string \<Rightarrow> (string \<times> string) list \<Rightarrow> string" where
  "open_tag tag attrs =
     ''<'' @ tag @ concat (map (\<lambda>(k, v). '' '' @ k @ ''='' @ [CHR 0x22] @ v @ [CHR 0x22]) attrs) @ ''>''"

definition th_body :: "int \<Rightarrow> nat \<Rightarrow> string \<Rightarrow> string" where
  \<open>th_body idx i safe_header =
     ''<div class="th-with-sort">''
     @ ''<div class="th-label">'' @ safe_header @ ''</div>''
     @ ''<button type="button" class="sort-btn sort-state-0" data-table-index="'' @ show_int (idx - 1)
     @ ''" data-col-index="'' @ show_nat i
     @ ''" title="Toggle sort" aria-label="Toggle sort"><span class="sort-icon" aria-hidden="true"></span></button>''
     @ ''</div>''
     @ ''</th>''\<close>

definition th_cell :: "int \<Rightarrow> string \<Rightarrow> string \<Rightarrow> nat \<Rightarrow> string \<Rightarrow> string \<Rightarrow> string" where
  "th_cell idx table_id col_type i col safe_header =
     open_tag ''th'' (th_attrs idx table_id col_type i col) @ th_body idx i safe_header"

text \<open>
  The \<open>thead\<close> loop over \<open>enumerate(cols)\<close>, each column paired with its rendered header.
  \<open>col_types[i]\<close> raises IndexError when the detected types are fewer than the columns; the
  text written before stays written.
\<close>

fun write_thead :: "int \<Rightarrow> string \<Rightarrow> string list \<Rightarrow> nat \<Rightarrow> (string \<times> string) list \<Rightarrow> string \<times> string option" where
  "write_thead idx table_id col_types i [] = ([], None)"
| "write_thead idx table_id col_types i ((col, safe_header) # rest) =
     (if i < length col_types
      then (let r = write_thead idx table_id col_types (Suc i) rest
            in (th_cell idx table_id (col_types ! i) i col safe_header @ fst r, snd r))
      else ([], Some ''list index out of range''))"

subsection \<open>Cells and rows\<close>

definition is_heading :: "string \<Rightarrow> bool" where
  "is_heading plain =
     (enumerator_match plain \<or>
      (length plain < 120 \<and> upper_is_self plain \<and> count_words False plain \<le> 8 \<and> length plain > 2))"

definition cell_source_html :: "env \<Rightarrow> bool \<Rightarrow> int \<Rightarrow> nat \<Rightarrow> nat \<Rightarrow> scalar \<Rightarrow> string \<times> warning list" where
  "cell_source_html e render_html_flag idx r_idx col_i val =
     (let raw = (if val = SNone then [] else py_str val)
      in case normalize_cell e raw of
           Inl err \<Rightarrow>
             (html_escape (str_or_empty val),
              [mk_warning Warn (''cell render failed: '' @ err) (Some idx) (Some r_idx) (Some col_i)])
         | Inr cell_src \<Rightarrow>
             (let rendered =
                    (if render_html_flag
                     then (case markdown_to_html e cell_src of
                             Some h \<Rightarrow> (h, [])
                           | None \<Rightarrow>
                              (html_escape cell_src,
                               [mk_warning Warn ''markdown render failed'' (Some idx) (Some r_idx) (Some col_i)]))
                     else (html_escape cell_src, []))
              in (case unescape_brackets e (fst rendered) of
                    Some u \<Rightarrow> (u, snd rendered)
                  | None \<Rightarrow> rendered)))"

definition sanitize_cell :: "env \<Rightarrow> scalar \<Rightarrow> string \<Rightarrow> string" where
  "sanitize_cell e val cell_html =
     (case sanitize_html_whitelist e cell_html of
        Some s \<Rightarrow> (if s = [] then html_escape (str_or_empty val) else s)
      | None \<Rightarrow> html_escape (str_or_empty val))"

definition render_cell ::
  "env \<Rightarrow> bool \<Rightarrow> int \<Rightarrow> string \<Rightarrow> string list \<Rightarrow> string list \<Rightarrow> nat \<Rightarrow> string \<Rightarrow> nat \<Rightarrow> scalar
     \<Rightarrow> string \<times> warning list" where
  \<open>render_cell e render_html_flag idx table_id cols labels r_idx first_col_raw col_i val =
     (let src = cell_source_html e render_html_flag idx r_idx col_i val;
          cell_html = sanitize_cell e val (fst src);
          data_label = (if col_i < length labels then labels ! col_i
                        else attr_escape (if col_i < length cols then cols ! col_i else []));
          plain = py_strip (strip_tags cell_html);
          cell_html = (if col_i = 0 \<and> first_col_raw \<noteq> [] \<and> is_heading plain
                       then ''<div class="section-heading" id="''
                            @ sanitize_id (table_id @ ''-section-'' @ plain) (show_int idx @ ''-'' @ show_nat r_idx)
                            @ ''">'' @ cell_html @ ''</div>''
                       else cell_html)
      in (''<td data-label="'' @ data_label @ ''">'' @ cell_html @ ''</td>'', snd src))\<close>

text \<open>
  One row: \<open>first_col_raw\<close> (empty when the row is empty), the cells over \<open>enumerate(row)\<close>
  and the \<open>tr\<close> element written; the warnings of its cells in order.
\<close>

fun render_cells ::
  "env \<Rightarrow> bool \<Rightarrow> int \<Rightarrow> string \<Rightarrow> string list \<Rightarrow> string list \<Rightarrow> nat \<Rightarrow> string \<Rightarrow> nat \<Rightarrow> scalar list
     \<Rightarrow> string \<times> warning list" where
  "render_cells e flag idx table_id cols labels r_idx first_col_raw col_i [] = ([], [])"
| "render_cells e flag idx table_id cols labels r_idx first_col_raw col_i (val # vals) =
     (let c = render_cell e flag idx table_id cols labels r_idx first_col_raw col_i val;
          r = render_cells e flag idx table_id cols labels r_idx first_col_raw (Suc col_i) vals
      in (fst c @ fst r, snd c @ snd r))"

definition render_row ::
  "env \<Rightarrow> bool \<Rightarrow> int \<Rightarrow> string \<Rightarrow> string list \<Rightarrow> string list \<Rightarrow> nat \<Rightarrow> scalar list \<Rightarrow> string \<times> warning list" where
  "render_row e flag idx table_id cols labels r_idx row =
     (let first_col_raw = (case row of [] \<Rightarrow> [] | v # _ \<Rightarrow> (if v = SNone then [] else py_str v));
          cells = render_cells e flag idx table_id cols labels r_idx first_col_raw 0 row
      in (''<tr>'' @ fst cells @ ''</tr>'', snd cells))"

subsection \<open>The row loop\<close>

text \<open>
  The loop \<open>for row in it_stream\<close> with its counter \<open>r_idx\<close>. It returns the \<open>tr\<close>
  elements written, the final \<open>r_idx\<close> and the warnings appended, in order. Every pass that
  does not break increments \<open>r_idx\<close> once, so the poll of the cancel event in a pass is
  poll number \<open>r_idx\<close>.
\<close>

definition cancel_is_set :: "render_config \<Rightarrow> nat \<Rightarrow> bool" where
  "cancel_is_set cfg k = (case cancel_event cfg of None \<Rightarrow> False | Some ev \<Rightarrow> ev k)"

definition limit_exceeded :: "render_config \<Rightarrow> nat \<Rightarrow> bool" where
  "limit_exceeded cfg r_idx = (table_row_limit cfg \<noteq> 0 \<and> int r_idx > table_row_limit cfg)"

fun row_loop ::
  "env \<Rightarrow> bool \<Rightarrow> render_config \<Rightarrow> int \<Rightarrow> string \<Rightarrow> string list \<Rightarrow> string list \<Rightarrow> string option \<Rightarrow> nat
     \<Rightarrow> scalar list list \<Rightarrow> string list \<times> nat \<times> warning list" where
  "row_loop e flag cfg idx table_id cols labels iter_err r_idx [] =
     ([], r_idx,
      (case iter_err of
         None \<Rightarrow> []
       | Some err \<Rightarrow> [mk_warning Error (''row iteration failed: '' @ err) (Some idx) None None]))"
| "row_loop e flag cfg idx table_id cols labels iter_err r_idx (row # rest) =
     (if cancel_is_set cfg r_idx
      then ([], r_idx, [mk_warning Warn ''canceled'' (Some idx) None None])
      else if limit_exceeded cfg (Suc r_idx)
      then ([], Suc r_idx, [mk_warning Warn ''table_row_limit exceeded'' (Some idx) (Some (Suc r_idx)) None])
      else (let tr = render_row e flag idx table_id cols labels (Suc r_idx) row;
                r = row_loop e flag cfg idx table_id cols labels iter_err (Suc r_idx) rest
            in (fst tr # fst r, fst (snd r), snd tr @ snd (snd r))))"

subsection \<open>The writer and the fragment file\<close>

definition fragment_open :: "int \<Rightarrow> string \<Rightarrow> string \<Rightarrow> string \<Rightarrow> string \<Rightarrow> string" where
  \<open>fragment_open idx table_id title_id title_html display_title =
     ''<div class="table-wrapper" id="'' @ table_id @ ''">''
     @ ''<h3 id="'' @ title_id @ ''">'' @ title_html @ ''</h3>''
     @ ''<div class="table-header-wrapper header-controls">''
     @ ''<div class="copy-buttons">''
     @ ''<button type="button" class="copy-plain-btn" data-table-index="'' @ show_int (idx - 1)
     @ ''" aria-label="Copy table as plain text">Copy Plain Table</button>''
     @ ''<button type="button" class="copy-md-btn" data-table-index="'' @ show_int (idx - 1)
     @ ''" aria-label="Copy table as markdown">Copy Markdown Table</button>''
     @ ''</div>''
     @ ''<div class="header-actions">''
     @ ''<button type="button" class="toggle-table-btn" data-table-index="'' @ show_int (idx - 1)
     @ ''" aria-label="Toggle table">Collapse Table</button>''
     @ ''</div>''
     @ ''</div>''
     @ ''<div class="table-container">''
     @ (if safe_caption display_title \<noteq> []
        then ''<table><caption>'' @ safe_caption display_title @ ''</caption><thead><tr>''
        else ''<table><thead><tr>'')\<close>

definition fragment_close :: "nat \<Rightarrow> nat \<Rightarrow> string" where
  \<open>fragment_close r_idx ncols =
     ''</tbody></table></div>''
     @ ''<div class="row-count"></div>''
     @ ''<div class="table-summary">Rows: '' @ show_nat r_idx @ '' | Columns: '' @ show_nat ncols @ ''</div>''
     @ ''</div>''\<close>

text \<open>
  The inner function \<open>writer(f)\<close>: the text it writes, the exception it ends with (only the
  \<open>thead\<close> loop can raise past the handlers), and the warnings it appends to
  \<open>frag_warnings\<close>.
\<close>

definition fragment_writer ::
  "env \<Rightarrow> bool \<Rightarrow> render_config \<Rightarrow> int \<Rightarrow> string \<Rightarrow> string list \<Rightarrow> string list \<Rightarrow> row_stream
     \<Rightarrow> string \<Rightarrow> string \<Rightarrow> string \<Rightarrow> (string \<times> string option) \<times> warning list" where
  "fragment_writer e flag cfg idx table_id cols col_types it_stream title_id title_html display_title =
     (let pre = fragment_open idx table_id title_id title_html display_title;
          th = write_thead idx table_id col_types 0 (zip cols (map (header_html e) cols))
      in case snd th of
           Some err \<Rightarrow> ((pre @ fst th, Some err), [])
         | None \<Rightarrow>
            (let lp = row_loop e flag cfg idx table_id cols (map (header_plain_label e) cols)
                        (snd it_stream) 0 (fst it_stream)
             in ((pre @ fst th @ ''</tr></thead><tbody>'' @ concat (fst lp)
                    @ fragment_close (fst (snd lp)) (length cols), None),
                 snd (snd lp))))"

definition frag_table_id :: "int \<Rightarrow> string" where
  "frag_table_id idx = sanitize_id (''Table'' @ show_int idx) (show_int idx)"

definition frag_file_path :: "string \<Rightarrow> int \<Rightarrow> string" where
  "frag_file_path tmp_frag_dir idx = tmp_frag_dir @ ''/frag_'' @ show_int idx @ ''.html''"

text \<open>
  \<open>_render_table_fragment_to_file(idx, df, tmp_frag_dir, renderer, cfg, left_width,
  right_width, *, render_html_flag)\<close>; the two widths are not used by the body. In the source
  file \<open>_atomic_stream_write\<close> is \<open>None\<close>, so the write goes through
  \<open>_default_write_atomic\<close>. The third component returned is \<open>final_count\<close>, the number of
  lines of the fragment file read back, and 0 when it cannot be read.
\<close>

definition fragment_text ::
  "env \<Rightarrow> int \<Rightarrow> table_like \<Rightarrow> render_config \<Rightarrow> bool \<Rightarrow> (string \<times> string option) \<times> warning list" where
  "fragment_text e idx df cfg flag =
     (let st = prepare_table_stream e df;
          cols = fst st;
          sample_rows = fst (snd st);
          titles = derive_titles e idx cols sample_rows df
      in fragment_writer e flag cfg idx (frag_table_id idx) cols
           (detect_column_types e sample_rows cols) (snd (snd st))
           (fst (snd (snd titles))) (snd (snd (snd titles))) (fst (snd titles)))"

definition render_table_fragment_to_file ::
  "env \<Rightarrow> int \<Rightarrow> table_like \<Rightarrow> string \<Rightarrow> render_config \<Rightarrow> bool \<Rightarrow> fs
     \<Rightarrow> (int \<times> string \<times> nat \<times> warning list) \<times> fs" where
  "render_table_fragment_to_file e idx df tmp_frag_dir cfg flag fs =
     (let frag_file = frag_file_path tmp_frag_dir idx;
          w = fragment_text e idx df cfg flag;
          res = default_write_atomic e fs frag_file (fst w);
          frag_warnings =
            (case fst res of OpenFailed err \<Rightarrow> [] | _ \<Rightarrow> snd w)
            @ (case write_error (fst res) of
                 None \<Rightarrow> []
               | Some err \<Rightarrow> [mk_warning Error (''fragment write failed: '' @ err) (Some idx) None None]);
          final_count = (case snd res frag_file of None \<Rightarrow> 0 | Some content \<Rightarrow> count_lines content)
      in ((idx, frag_file, final_count, frag_warnings), snd res))"

section \<open>The orchestrator\<close>

subsection \<open>Paths and results\<close>

text \<open>
  The output path, by the three parts \<open>render_html\<close> uses: \<open>out_path.parent\<close>,
  \<open>out_path.stem\<close> and \<open>out_path.suffix\<close>. A part file is
  \<open>out_dir / f"{stem}_part{part_no}{suffix}"\<close>, the index is \<open>out_dir / f"{stem}_index.html"\<close>.
\<close>

record out_path =
  out_dir :: string
  out_stem :: string
  out_suffix :: string

definition path_str :: "out_path \<Rightarrow> string" where
  "path_str p = out_dir p @ ''/'' @ out_stem p @ out_suffix p"

definition part_path :: "out_path \<Rightarrow> nat \<Rightarrow> out_path" where
  "part_path p k = p\<lparr>out_stem := out_stem p @ ''_part'' @ show_nat k\<rparr>"

definition part_file_name :: "out_path \<Rightarrow> nat \<Rightarrow> string" where
  "part_file_name p k = out_stem p @ ''_part'' @ show_nat k @ out_suffix p"

definition index_path :: "out_path \<Rightarrow> string" where
  "index_path p = out_dir p @ ''/'' @ out_stem p @ ''_index.html''"

text \<open>
  The dictionary \<open>render_html\<close> returns. A field is \<open>None\<close> when its key is absent or
  holds \<open>None\<close>. \<open>runtime_ms\<close> is wall-clock time and is left out.
\<close>

record render_result =
  r_warnings :: "warning list"
  r_tables :: "nat option"
  r_rows :: "nat option"
  r_parts :: "string list option"
  r_output :: "string option"
  r_html :: "string option"

subsection \<open>Splitting\<close>

text \<open>The row count of a table for the split: the rows iterated, and 0 when iterating raises.\<close>

definition count_rows :: "table_like \<Rightarrow> nat" where
  "count_rows df = (case df_iter_error df of None \<Rightarrow> length (df_rows df) | Some err \<Rightarrow> 0)"

text \<open>
  The loop over \<open>zip(tables_list, row_counts)\<close> with its variables \<open>cur_rows\<close>,
  \<open>cur_tables\<close> and \<open>part_no\<close>, and the closing \<open>if cur_tables\<close> after it. The result
  lists, in order, the part number and the tables of every recursive \<open>render_html\<close> call
  the loop makes; the value a recursive call returns is discarded by the source, so the
  variables of the loop do not depend on it.
\<close>

fun split_loop :: "int \<Rightarrow> (table_like \<times> nat) list \<Rightarrow> nat \<Rightarrow> table_like list \<Rightarrow> nat \<Rightarrow> (nat \<times> table_like list) list" where
  "split_loop T [] cur_rows cur_tables part_no =
     (if cur_tables \<noteq> [] then [(part_no, cur_tables)] else [])"
| "split_loop T ((df, rc) # rest) cur_rows cur_tables part_no =
     (if int (cur_rows + rc) > T \<and> cur_tables \<noteq> []
      then (part_no, cur_tables) # split_loop T rest rc [df] (Suc part_no)
      else split_loop T rest (cur_rows + rc) (cur_tables @ [df]) part_no)"

definition split_parts :: "int \<Rightarrow> table_like list \<Rightarrow> (nat \<times> table_like list) list" where
  "split_parts T tables = split_loop T (zip tables (map count_rows tables)) 0 [] 1"

text \<open>The index document: one list item per part, linking \<open>Path(p).name\<close>.\<close>

definition index_item :: "string \<Rightarrow> string" where
  \<open>index_item n = ''<li><a href="'' @ n @ ''">'' @ n @ ''</a></li>''\<close>

definition index_html :: "string list \<Rightarrow> string" where
  "index_html names =
     ''<!DOCTYPE html><html><head><meta charset='' @ [CHR 0x27] @ ''utf-8'' @ [CHR 0x27]
     @ ''><title>Index</title></head><body><h1>Parts</h1><ul>''
     @ concat (map index_item names)
     @ ''</ul></body></html>''"

text \<open>
  The index is written with \<open>_default_write_atomic\<close>; when that raises, with
  \<open>write_text\<close> on the path itself; when that raises too, not at all.
\<close>

definition write_index :: "env \<Rightarrow> fs \<Rightarrow> string \<Rightarrow> string \<Rightarrow> fs" where
  "write_index e fs path text =
     (let res = default_write_atomic e fs path (text, None)
      in case fst res of
           Written \<Rightarrow> snd res
         | _ \<Rightarrow> (case open_fails e path of None \<Rightarrow> (snd res)(path \<mapsto> text) | Some err \<Rightarrow> snd res))"

text \<open>
  The recursive calls of the loop, in order, each on the file system the previous one left.
  A call that raises (\<open>None\<close>) ends the loop there, on the file system the calls before it
  left; nothing in the loop catches it.
\<close>

datatype parts_run = Parts_done fs | Parts_raised fs

fun run_parts ::
  "(table_like list \<Rightarrow> out_path \<Rightarrow> fs \<Rightarrow> fs option) \<Rightarrow> out_path \<Rightarrow> (nat \<times> table_like list) list \<Rightarrow> fs \<Rightarrow> parts_run" where
  "run_parts render out [] fs = Parts_done fs"
| "run_parts render out ((k, g) # rest) fs =
     (case render g (part_path out k) fs of
        None \<Rightarrow> Parts_raised fs
      | Some fs' \<Rightarrow> run_parts render out rest fs')"

text \<open>
  The message of the \<open>RecursionError\<close> with which the interpreter refuses a call of a Python
  function once the call stack has reached its limit, and the warning that the handler of the
  split block (\<open>except Exception as e\<close>) records for an exception with a given message.
\<close>

definition recursion_error :: string where
  "recursion_error = ''maximum recursion depth exceeded''"

definition split_failed_warning :: "string \<Rightarrow> warning" where
  "split_failed_warning err =
     mk_warning Warn (''split_threshold processing failed: '' @ err) None None None"

subsection \<open>Collecting the fragments\<close>

text \<open>
  The worker pool is sized \<open>max(1, min(len(tables_list) or 1, max_workers))\<close>.
\<close>

definition worker_count :: "render_config \<Rightarrow> nat \<Rightarrow> int" where
  "worker_count cfg n = max 1 (min (if n = 0 then 1 else int n) (max_workers cfg))"

text \<open>
  The task \<open>render_html\<close> submits for table \<open>i\<close> is the call
  \<open>_render_table_fragment_to_file(i, df, tmp_frag_dir, renderer, cfg, left_width,
  right_width, True)\<close>, with eight positional arguments. The function has seven positional
  parameters; \<open>render_html_flag\<close> stands after a bare \<open>*\<close> and is keyword-only. The call
  raises \<open>TypeError\<close> before the body runs, and \<open>fut.result()\<close> raises it again in the
  collecting loop. What a future yields is an outcome: an exception's message, or the tuple
  the fragment renderer returns.
\<close>

type_synonym outcome = "string + (int \<times> string \<times> nat \<times> warning list)"

definition submitted_task :: "nat \<Rightarrow> table_like \<Rightarrow> outcome" where
  "submitted_task i df = Inl ''_render_table_fragment_to_file() takes 7 positional arguments but 8 were given''"

text \<open>The outcomes of the tasks submitted over \<open>enumerate(tables_list, start=1)\<close>.\<close>

definition submit_all :: "table_like list \<Rightarrow> outcome list" where
  "submit_all tables = map (\<lambda>(i, df). submitted_task i df) (zip [1 ..< Suc (length tables)] tables)"

record frag_meta =
  fm_path :: string
  fm_content :: string
  fm_title_id :: string
  fm_title_text :: string
  fm_sections :: "(string \<times> string) list"

record collected =
  fragments_map :: "(int \<times> frag_meta) list"
  frag_row_counts :: "(int \<times> nat) list"
  total_rows :: nat
  warnings :: "warning list"
  finished_tables :: nat

text \<open>
  The body of the loop over \<open>as_completed\<close> for one future: \<open>content\<close> is the fragment
  file read in text mode, and empty when the file cannot be read. \<open>h3_search\<close> and
  \<open>section_finditer\<close> give the groups of the two regular expressions. The progress
  callback (whose exceptions are swallowed) and the log line have no part in the result.
\<close>

definition plain_text :: "env \<Rightarrow> string \<Rightarrow> string" where
  "plain_text e raw = html_unescape e (py_strip (strip_tags raw))"

definition fragment_meta :: "env \<Rightarrow> int \<Rightarrow> string \<Rightarrow> string \<Rightarrow> frag_meta" where
  "fragment_meta e i frag_path content =
     (let m = (if content \<noteq> [] then h3_search e content else None);
          title_id = (case m of Some g \<Rightarrow> fst g | None \<Rightarrow> []);
          title_text = (case m of Some g \<Rightarrow> plain_text e (snd g) | None \<Rightarrow> []);
          sections = (if content \<noteq> []
                      then map (\<lambda>sm. (fst sm, plain_text e (snd sm))) (section_finditer e content)
                      else [])
      in \<lparr>fm_path = frag_path, fm_content = content,
          fm_title_id = (if title_id = [] then ''Table'' @ show_int i else title_id),
          fm_title_text = (if title_text = [] then ''Table '' @ show_int i else title_text),
          fm_sections = sections\<rparr>)"

definition collect_one :: "env \<Rightarrow> fs \<Rightarrow> outcome \<Rightarrow> collected \<Rightarrow> collected" where
  "collect_one e fs out st =
     (case out of
        Inl err \<Rightarrow>
          st\<lparr>warnings := warnings st @ [mk_warning Error (''table render failed: '' @ err) None None None]\<rparr>
      | Inr (i, frag_path, rcount, frag_warnings) \<Rightarrow>
          st\<lparr>fragments_map :=
               AList.update i
                 (fragment_meta e i frag_path
                    (case fs frag_path of Some c \<Rightarrow> universal_newlines c | None \<Rightarrow> []))
                 (fragments_map st),
             frag_row_counts := AList.update i rcount (frag_row_counts st),
             total_rows := total_rows st + rcount,
             warnings := warnings st @ frag_warnings,
             finished_tables := Suc (finished_tables st)\<rparr>)"

definition collect_results :: "env \<Rightarrow> fs \<Rightarrow> outcome list \<Rightarrow> warning list \<Rightarrow> collected" where
  "collect_results e fs outs ws =
     fold (collect_one e fs) outs
       \<lparr>fragments_map = [], frag_row_counts = [], total_rows = 0, warnings = ws, finished_tables = 0\<rparr>"

subsection \<open>The fallback decision\<close>

text \<open>
  \<open>_frag_contains_rows\<close>: \<open>re.search(r'<tbody>\s*<tr', content, flags=re.IGNORECASE)\<close>
  on a non-empty content.
\<close>

fun prefix_ci :: "string \<Rightarrow> string \<Rightarrow> bool" where
  "prefix_ci [] s = True"
| "prefix_ci (p # ps) [] = False"
| "prefix_ci (p # ps) (c # cs) = (py_lower_char c = p \<and> prefix_ci ps cs)"

definition tbody_tr_at :: "string \<Rightarrow> bool" where
  "tbody_tr_at s = (prefix_ci ''<tbody>'' s \<and> prefix_ci ''<tr'' (dropWhile py_is_space (drop 7 s)))"

fun search_tbody_tr :: "string \<Rightarrow> bool" where
  "search_tbody_tr [] = False"
| "search_tbody_tr (c # cs) = (tbody_tr_at (c # cs) \<or> search_tbody_tr cs)"

definition frag_contains_rows :: "string \<Rightarrow> bool" where
  "frag_contains_rows content = (content \<noteq> [] \<and> search_tbody_tr content)"

definition no_fragments_warning :: warning where
  "no_fragments_warning =
     mk_warning Warn ''no fragments produced; falling back to inline rendering'' None None None"

definition no_rows_warning :: warning where
  "no_rows_warning =
     mk_warning Warn ''fragments contain no rows; falling back to inline rendering'' None None None"

definition any_with_rows :: "(int \<times> frag_meta) list \<Rightarrow> bool" where
  "any_with_rows fm = list_ex (\<lambda>kv. frag_contains_rows (fm_content (snd kv))) fm"

text \<open>\<open>need_fallback\<close>, and the warnings the decision appends.\<close>

definition fallback_decision :: "(int \<times> frag_meta) list \<Rightarrow> bool \<times> warning list" where
  "fallback_decision fm =
     (if fm = [] then (True, [no_fragments_warning])
      else if \<not> any_with_rows fm then (True, [no_rows_warning])
      else (False, []))"

subsection \<open>Table of contents, body and document\<close>

definition toc_item :: "string \<Rightarrow> string \<Rightarrow> string" where
  \<open>toc_item title_id title_text =
     ''<li class="toc-item"><a class="toc-link" href="#'' @ html_escape title_id @ ''">''
     @ html_escape title_text @ ''</a></li>''\<close>

text \<open>\<open>"\n".join(items)\<close>.\<close>

fun join_lines :: "string list \<Rightarrow> string" where
  "join_lines [] = []"
| "join_lines [x] = x"
| "join_lines (x # y # ys) = x @ [CHR 0x0A] @ join_lines (y # ys)"

definition toc_html :: "string list \<Rightarrow> string" where
  \<open>toc_html toc_items =
     ''<div id="tocBar" role="navigation" aria-label="Table of contents"><ul>''
     @ join_lines toc_items @ ''</ul></div>''\<close>

text \<open>The fragments in the order of \<open>sorted(fragments_map.keys())\<close>.\<close>

definition ordered_fragments :: "(int \<times> frag_meta) list \<Rightarrow> frag_meta list" where
  "ordered_fragments fm = map (\<lambda>i. the (map_of fm i)) (sort (map fst fm))"

text \<open>
  The fallback's piece for table \<open>idx\<close>: \<open>convert_render_table\<close> when the module provides
  it, else \<open>df.to_html\<close> under a default heading; the placeholder when either raises.
\<close>

definition table_heading :: "nat \<Rightarrow> string" where
  "table_heading idx =
     ''<h3 id='' @ [CHR 0x27] @ ''Table'' @ show_nat idx @ [CHR 0x27] @ ''>Table '' @ show_nat idx
     @ ''</h3>'' @ [CHR 0x0A]"

definition failed_piece :: "nat \<Rightarrow> string" where
  "failed_piece idx = table_heading idx @ ''<p>(failed to render table)</p>''"

definition inline_piece :: "env \<Rightarrow> nat \<Rightarrow> table_like \<Rightarrow> string \<times> warning list" where
  "inline_piece e idx df =
     (case convert_render_table e of
        Some render \<Rightarrow>
          (case render df idx of
             Inr piece \<Rightarrow> (piece, [])
           | Inl err \<Rightarrow>
              (failed_piece idx,
               [mk_warning Warn (''inline render failed for table '' @ show_nat idx @ '': '' @ err)
                  None None None]))
      | None \<Rightarrow>
          (case to_html e df of
             Some h \<Rightarrow> (table_heading idx @ h, [])
           | None \<Rightarrow> (failed_piece idx, [])))"

definition inline_toc_item :: "env \<Rightarrow> nat \<Rightarrow> string \<Rightarrow> string" where
  "inline_toc_item e idx piece =
     (case h3_search e piece of
        Some g \<Rightarrow> toc_item (fst g) (plain_text e (snd g))
      | None \<Rightarrow> toc_item (''Table'' @ show_nat idx) (''Table '' @ show_nat idx))"

text \<open>The fallback loop over \<open>enumerate(tables_list, start=1)\<close>: pieces, items, warnings.\<close>

fun inline_tables :: "env \<Rightarrow> nat \<Rightarrow> table_like list \<Rightarrow> string list \<times> string list \<times> warning list" where
  "inline_tables e idx [] = ([], [], [])"
| "inline_tables e idx (df # rest) =
     (let p = inline_piece e idx df;
          r = inline_tables e (Suc idx) rest
      in (fst p # fst r, inline_toc_item e idx (fst p) # fst (snd r), snd p @ snd (snd r)))"

text \<open>\<open>_build_sticky_header_html(page_title_esc)\<close>.\<close>

definition sticky_header_html :: "string \<Rightarrow> string" where
  \<open>sticky_header_html title =
     ''<div id="tables-viewer" role="region" aria-label="Tables viewer">'' @ [CHR 0x0A]
     @ ''  <div id="stickyMainHeader">'' @ [CHR 0x0A]
     @ ''    <div id="tv-header">'' @ [CHR 0x0A]
     @ ''      <div><h1>'' @ title @ ''</h1></div>'' @ [CHR 0x0A]
     @ ''      <div class="tv-controls">'' @ [CHR 0x0A]
     @ ''        <input id="searchBox" class="search-input" type="search" placeholder="Search" aria-label="Search tables"/>'' @ [CHR 0x0A]
     @ ''        <button id="modeBtn" type="button" aria-label="Toggle theme">Theme</button>'' @ [CHR 0x0A]
     @ ''        <button id="toggleAllBtn" type="button" aria-label="Toggle all">Collapse All Tables</button>'' @ [CHR 0x0A]
     @ ''        <button id="copyAllPlainBtn" type="button" aria-label="Copy all tables as plain text">Copy All Tables (Plain Text)</button>'' @ [CHR 0x0A]
     @ ''        <button id="copyAllMdBtn" type="button" aria-label="Copy all tables as markdown">Copy All Tables (Markdown)</button>'' @ [CHR 0x0A]
     @ ''        <button id="resetAllBtn" type="button" aria-label="Reset all tables">Reset All Tables</button>'' @ [CHR 0x0A]
     @ ''      </div>'' @ [CHR 0x0A]
     @ ''    </div>'' @ [CHR 0x0A]
     @ ''    <noscript>'' @ [CHR 0x0A]
     @ ''      <div style='color:#b91c1c'>JavaScript is disabled. Tables will be shown statically. For large tables enable JS for virtualization.</div>'' @ [CHR 0x0A]
     @ ''    </noscript>'' @ [CHR 0x0A]
     @ ''  </div>'' @ [CHR 0x0A]\<close>

text \<open>
  The body of the document: the fragment files copied in order through a text-mode read, a
  file that cannot be opened being skipped; or, on the fallback path, the inline pieces, one
  per line.
\<close>

definition copied_fragments :: "fs \<Rightarrow> string list \<Rightarrow> string" where
  "copied_fragments fs paths =
     concat (map (\<lambda>fp. case fs fp of Some c \<Rightarrow> universal_newlines c | None \<Rightarrow> []) paths)"

definition lines_of :: "string list \<Rightarrow> string" where
  "lines_of parts = concat (map (\<lambda>p. p @ [CHR 0x0A]) parts)"

definition document :: "env \<Rightarrow> string list \<Rightarrow> string \<Rightarrow> string" where
  "document e toc_items body =
     lines_of (head_parts e)
     @ sticky_header_html (page_title_esc e) @ [CHR 0x0A]
     @ toc_html toc_items @ [CHR 0x0A]
     @ body
     @ lines_of (bottom_parts e)
     @ ''</div></body></html>'' @ [CHR 0x0A]"

subsection \<open>\<open>render_html\<close>\<close>

definition tmp_frag_dir :: "env \<Rightarrow> out_path \<Rightarrow> string" where
  "tmp_frag_dir e out =
     (if mkdir_frag_fails e then out_dir out else out_dir out @ ''/.frags_'' @ show_nat (now_ms e))"

text \<open>\<open>shutil.rmtree(d)\<close>: every file below the directory goes.\<close>

definition rmtree :: "string \<Rightarrow> fs \<Rightarrow> fs" where
  "rmtree d fs = (\<lambda>p. if take (Suc (length d)) p = d @ ''/'' then None else fs p)"

definition cleanup :: "env \<Rightarrow> out_path \<Rightarrow> fs \<Rightarrow> fs" where
  "cleanup e out fs = (if tmp_frag_dir e out \<noteq> out_dir out then rmtree (tmp_frag_dir e out) fs else fs)"

text \<open>
  \<open>render_html\<close> from the collecting loop to its return, for the outcomes the futures
  yield (in completion order), the warnings recorded so far and the file system the tasks
  left. In the source file \<open>_atomic_write\<close> is \<open>None\<close>, so the document is written with
  \<open>_default_write_atomic\<close>; its writer only writes to the open file. With \<open>return_html\<close>
  the document is read back in text mode.
\<close>

definition render_from_outcomes ::
  "env \<Rightarrow> table_like list \<Rightarrow> out_path \<Rightarrow> render_config \<Rightarrow> bool \<Rightarrow> warning list \<Rightarrow> outcome list \<Rightarrow> fs
     \<Rightarrow> render_result \<times> fs" where
  "render_from_outcomes e tables out cfg return_html ws outs fs =
     (let st = collect_results e fs outs ws;
          dec = fallback_decision (fragments_map st);
          need_fallback = fst dec;
          inl = (if need_fallback then inline_tables e 1 tables else ([], [], []));
          frags = ordered_fragments (fragments_map st);
          toc_items = (if need_fallback then fst (snd inl)
                       else map (\<lambda>m. toc_item (fm_title_id m) (fm_title_text m)) frags);
          body = (if need_fallback then lines_of (fst inl)
                  else copied_fragments fs (map fm_path frags));
          ws1 = warnings st @ snd dec @ snd (snd inl);
          res = default_write_atomic e fs (path_str out) (document e toc_items body, None)
      in case write_error (fst res) of
           Some err \<Rightarrow>
             (\<lparr>r_warnings = ws1 @ [mk_warning Error (''write_failed: '' @ err) None None None],
               r_tables = None, r_rows = None, r_parts = None, r_output = None, r_html = None\<rparr>,
              snd res)
         | None \<Rightarrow>
             (let gz = (if gzip_out cfg
                        then (case open_fails e (path_str out @ ''.gz'') of
                                Some err \<Rightarrow>
                                  ([mk_warning Warn (''gzip_failed: '' @ err) None None None], snd res)
                              | None \<Rightarrow>
                                  ([], (snd res)(path_str out @ ''.gz''
                                          \<mapsto> gzip_compress e (document e toc_items body))))
                        else ([], snd res))
              in (\<lparr>r_warnings = ws1 @ fst gz, r_tables = Some (length tables),
                    r_rows = Some (total_rows st), r_parts = None,
                    r_output = Some (path_str out),
                    r_html = (if return_html then map_option universal_newlines (snd gz (path_str out))
                              else None)\<rparr>,
                  cleanup e out (snd gz))))"

text \<open>
  \<open>render_html\<close>. The first argument is the number of nested calls of \<open>render_html\<close>
  the interpreter still allows: a call made when none is left raises \<open>RecursionError\<close>
  before its body runs (\<open>None\<close>), and every other call returns. The limit is counted in
  calls of \<open>render_html\<close> only, the calls a body makes to other functions being taken to fit.
  A recursive call gets the same \<open>cfg\<close>, with \<open>return_html=False\<close>, and \<open>str(part_name)\<close>
  as its output path, whose stem is the stem of the caller followed by \<open>_part{part_no}\<close>; the
  value it returns is discarded. The only exception that reaches the handler of the split
  block is that of a refused recursive call: the handler records a warning and the call goes
  on to the non-split path, with all its tables, on the file system the loop left. When the
  split is not taken, one task per table is submitted and collected.
\<close>

fun render_html ::
  "nat \<Rightarrow> env \<Rightarrow> table_like list \<Rightarrow> out_path \<Rightarrow> render_config \<Rightarrow> bool \<Rightarrow> fs \<Rightarrow> (render_result \<times> fs) option" where
  "render_html 0 e tables out cfg return_html fs = None"
| "render_html (Suc n) e tables out cfg return_html fs =
     (if split_threshold cfg \<noteq> 0 \<and> int (sum_list (map count_rows tables)) > split_threshold cfg
      then (case run_parts (\<lambda>g p s. map_option snd (render_html n e g p cfg False s)) out
                   (split_parts (split_threshold cfg) tables) fs of
              Parts_raised fs1 \<Rightarrow>
               Some (render_from_outcomes e tables out cfg return_html
                       (setup_warnings e @ [split_failed_warning recursion_error])
                       (submit_all tables) fs1)
            | Parts_done fs1 \<Rightarrow>
               Some (\<lparr>r_warnings = setup_warnings e, r_tables = Some (length tables),
                      r_rows = Some (sum_list (map count_rows tables)),
                      r_parts = Some (map (\<lambda>kg. path_str (part_path out (fst kg)))
                                        (split_parts (split_threshold cfg) tables)),
                      r_output = None, r_html = None\<rparr>,
                     write_index e fs1 (index_path out)
                       (index_html (map (\<lambda>kg. part_file_name out (fst kg))
                                      (split_parts (split_threshold cfg) tables)))))
      else Some (render_from_outcomes e tables out cfg return_html (setup_warnings e)
                   (submit_all tables) fs))"

section \<open>Notions of the specification, and sample inputs\<close>

text \<open>The split path is taken: the threshold is set and the total row count exceeds it.\<close>

definition splits :: "render_config \<Rightarrow> table_like list \<Rightarrow> bool" where
  "splits cfg tables =
     (split_threshold cfg \<noteq> 0 \<and> int (sum_list (map count_rows tables)) > split_threshold cfg)"

text \<open>The rows of a group of tables.\<close>

definition group_rows :: "table_like list \<Rightarrow> nat" where
  "group_rows g = sum_list (map count_rows g)"

text \<open>
  A group boundary is forced: the group before it, with the first table of the group after
  it added, would exceed the threshold.
\<close>

fun boundaries_forced :: "int \<Rightarrow> table_like list list \<Rightarrow> bool" where
  "boundaries_forced T [] = True"
| "boundaries_forced T [g] = True"
| "boundaries_forced T (g # h # rest) =
     (int (group_rows g + count_rows (hd h)) > T \<and> boundaries_forced T (h # rest))"

text \<open>
  What the row loop writes when it renders every row of a list, the counter starting at
  \<open>r\<close>: the \<open>tr\<close> elements and the warnings of their cells.
\<close>

fun render_rows ::
  "env \<Rightarrow> bool \<Rightarrow> int \<Rightarrow> string \<Rightarrow> string list \<Rightarrow> string list \<Rightarrow> nat \<Rightarrow> scalar list list
     \<Rightarrow> string list \<times> warning list" where
  "render_rows e flag idx table_id cols labels r [] = ([], [])"
| "render_rows e flag idx table_id cols labels r (row # rest) =
     (fst (render_row e flag idx table_id cols labels (Suc r) row)
        # fst (render_rows e flag idx table_id cols labels (Suc r) rest),
      snd (render_row e flag idx table_id cols labels (Suc r) row)
        @ snd (render_rows e flag idx table_id cols labels (Suc r) rest))"

text \<open>The same for a table, with the table id, columns and labels the renderer uses for it.\<close>

definition table_rows_html :: "env \<Rightarrow> bool \<Rightarrow> int \<Rightarrow> table_like \<Rightarrow> scalar list list \<Rightarrow> string list \<times> warning list" where
  "table_rows_html e flag idx df rows =
     render_rows e flag idx (frag_table_id idx) (df_columns df)
       (map (header_plain_label e) (df_columns df)) 0 rows"

text \<open>
  The contract of the row stream adapter: the stream handed to the writer yields the rows of
  the table (and fails where the table's iterator fails). It holds whenever
  \<open>_take_and_stream\<close> raises, by the materialising branches of \<open>_prepare_table_stream\<close>,
  and for a \<open>_take_and_stream\<close> that hands back the rows it was given. The stand-in that the
  source file defines for a missing \<open>convert\<close> module returns an empty sample and an empty
  stream; under it no row is rendered at all, so the properties about rows are stated for
  tables that are streamed.
\<close>

definition streams_table :: "env \<Rightarrow> table_like \<Rightarrow> bool" where
  "streams_table e df = (snd (snd (prepare_table_stream e df)) = (df_rows df, df_iter_error df))"

text \<open>The sample, the detected column types, and the condition under which \<open>col_types[i]\<close>
  exists for every column.\<close>

definition sample_of :: "env \<Rightarrow> table_like \<Rightarrow> scalar list list" where
  "sample_of e df = fst (snd (prepare_table_stream e df))"

definition column_types :: "env \<Rightarrow> table_like \<Rightarrow> string list" where
  "column_types e df = detect_column_types e (sample_of e df) (df_columns df)"

definition header_types_ok :: "env \<Rightarrow> table_like \<Rightarrow> bool" where
  "header_types_ok e df = (length (df_columns df) \<le> length (column_types e df))"

text \<open>The header cells over \<open>enumerate(cols)\<close>, and the text of a fragment up to the end of
  its \<open>thead\<close>.\<close>

definition header_cells :: "env \<Rightarrow> int \<Rightarrow> table_like \<Rightarrow> string list" where
  "header_cells e idx df =
     map (\<lambda>ic. th_cell idx (frag_table_id idx) (column_types e df ! fst ic) (fst ic) (snd ic)
                 (header_html e (snd ic)))
       (zip [0 ..< length (df_columns df)] (df_columns df))"

definition fragment_head :: "env \<Rightarrow> int \<Rightarrow> table_like \<Rightarrow> string" where
  "fragment_head e idx df =
     (let t = derive_titles e idx (df_columns df) (sample_of e df) df
      in fragment_open idx (frag_table_id idx) (fst (snd (snd t))) (snd (snd (snd t))) (fst (snd t))
         @ concat (header_cells e idx df) @ ''</tr></thead>'')"

text \<open>A fragment whose \<open>tbody\<close> holds the given \<open>tr\<close> elements and whose footer reports
  \<open>r_idx\<close>; the row loop of the renderer on a table that streams its rows.\<close>

definition fragment_document :: "env \<Rightarrow> int \<Rightarrow> table_like \<Rightarrow> string list \<Rightarrow> nat \<Rightarrow> string" where
  "fragment_document e idx df trs r_idx =
     fragment_head e idx df @ ''<tbody>'' @ concat trs @ fragment_close r_idx (length (df_columns df))"

definition table_loop :: "env \<Rightarrow> int \<Rightarrow> table_like \<Rightarrow> render_config \<Rightarrow> bool \<Rightarrow> string list \<times> nat \<times> warning list" where
  "table_loop e idx df cfg flag =
     row_loop e flag cfg idx (frag_table_id idx) (df_columns df)
       (map (header_plain_label e) (df_columns df)) (df_iter_error df) 0 (df_rows df)"

text \<open>Neither opening the temporary file nor renaming it onto the path raises.\<close>

definition no_write_fault :: "env \<Rightarrow> string \<Rightarrow> bool" where
  "no_write_fault e path = (open_fails e (path @ ''.tmp'') = None \<and> replace_fails e path = None)"

text \<open>
  The paths a call of \<open>render_html\<close> for an output path can write: those that extend
  \<open>out_dir/out_stem\<close> (the document, its temporary and gzip siblings, the index, and all that
  the calls for its parts write), and those under a fragment directory of \<open>out_dir\<close>.
\<close>

definition below :: "out_path \<Rightarrow> string \<Rightarrow> bool" where
  "below out q =
     (prefix (out_dir out @ ''/'' @ out_stem out) q \<or> prefix (out_dir out @ ''/.frags_'') q)"

text \<open>
  What one future adds to \<open>total_rows\<close> and to the warnings: the third and fourth
  component of the tuple, or nothing and an error warning when the task raised.
\<close>

fun outcome_lines :: "outcome \<Rightarrow> nat" where
  "outcome_lines (Inl err) = 0"
| "outcome_lines (Inr r) = fst (snd (snd r))"

fun outcome_warnings :: "outcome \<Rightarrow> warning list" where
  "outcome_warnings (Inl err) = [mk_warning Error (''table render failed: '' @ err) None None None]"
| "outcome_warnings (Inr r) = snd (snd (snd r))"

text \<open>The warning of a failed gzip copy, if one was asked for.\<close>

definition gzip_warnings :: "env \<Rightarrow> render_config \<Rightarrow> out_path \<Rightarrow> warning list" where
  "gzip_warnings e cfg out =
     (if gzip_out cfg
      then (case open_fails e (path_str out @ ''.gz'') of
              Some err \<Rightarrow> [mk_warning Warn (''gzip_failed: '' @ err) None None None]
            | None \<Rightarrow> [])
      else [])"

text \<open>
  The document assembled for a fragments map, and the warnings accumulated before it is
  written.
\<close>

definition assembled :: "env \<Rightarrow> table_like list \<Rightarrow> fs \<Rightarrow> (int \<times> frag_meta) list \<Rightarrow> string" where
  "assembled e tables fs fm =
     (if fst (fallback_decision fm)
      then document e (fst (snd (inline_tables e 1 tables))) (lines_of (fst (inline_tables e 1 tables)))
      else document e (map (\<lambda>m. toc_item (fm_title_id m) (fm_title_text m)) (ordered_fragments fm))
             (copied_fragments fs (map fm_path (ordered_fragments fm))))"

definition accumulated :: "env \<Rightarrow> table_like list \<Rightarrow> collected \<Rightarrow> warning list" where
  "accumulated e tables st =
     warnings st @ snd (fallback_decision (fragments_map st))
     @ (if fst (fallback_decision (fragments_map st)) then snd (snd (inline_tables e 1 tables)) else [])"

text \<open>The warning recorded for a submitted task, see \<open>submitted_task\<close>.\<close>

definition task_failed_warning :: warning where
  "task_failed_warning =
     mk_warning Error
       (''table render failed: ''
        @ ''_render_table_fragment_to_file() takes 7 positional arguments but 8 were given'')
       None None None"

text \<open>Writing to the path with \<open>_default_write_atomic\<close> raises, with this message.\<close>

definition write_raises :: "env \<Rightarrow> string \<Rightarrow> string \<Rightarrow> bool" where
  "write_raises e path err =
     (open_fails e (path @ ''.tmp'') = Some err
      \<or> (open_fails e (path @ ''.tmp'') = None \<and> replace_fails e path = Some err))"

text \<open>
  Sample inputs: a table of \<open>n\<close> one-cell rows; collaborators that return their argument
  (the fallback definitions of the source file, with a row stream that yields the rows of the
  table) on a file system without faults; a configuration with every feature off.
\<close>

definition table_of_rows :: "nat \<Rightarrow> table_like" where
  "table_of_rows n =
     \<lparr>df_columns = [''a''], df_rows = replicate n [SStr ''x''], df_iter_error = None,
      df_title = None, df_name = None\<rparr>"

definition sample_env :: env where
  "sample_env =
     \<lparr>markdown_to_html = (\<lambda>s. Some s),
      sanitize_html_whitelist = (\<lambda>s. Some s),
      normalize_cell = (\<lambda>s. Inr s),
      unescape_brackets = (\<lambda>s. Some s),
      detect_column_types = (\<lambda>rows cols. replicate (length cols) ''text''),
      take_and_stream = (\<lambda>st n. Some (take n (fst st), st)),
      convert_render_table = None,
      html_unescape = (\<lambda>s. s),
      h3_search = (\<lambda>s. None),
      section_finditer = (\<lambda>s. []),
      to_html = (\<lambda>df. None),
      gzip_compress = (\<lambda>s. s),
      open_fails = (\<lambda>p. None),
      replace_fails = (\<lambda>p. None),
      now_ms = 0,
      mkdir_frag_fails = False,
      setup_warnings = [],
      head_parts = [],
      page_title_esc = ''Tables'',
      bottom_parts = []\<rparr>"

definition sample_cfg :: render_config where
  "sample_cfg =
     \<lparr>split_threshold = 0, max_workers = 4, table_row_limit = 0, cancel_event = None,
      gzip_out = False\<rparr>"

definition sample_out :: out_path where
  "sample_out = \<lparr>out_dir = ''out'', out_stem = ''tables'', out_suffix = ''.html''\<rparr>"

section \<open>Properties\<close>

subsection \<open>The split loop\<close>

lemma split_loop_close:
  "int (cr + rc) > T \<Longrightarrow> ct \<noteq> [] \<Longrightarrow>
   split_loop T ((df, rc) # rest) cr ct pn = (pn, ct) # split_loop T rest rc [df] (Suc pn)"
  by simp

lemma split_loop_extend:
  "\<not> (int (cr + rc) > T \<and> ct \<noteq> []) \<Longrightarrow>
   split_loop T ((df, rc) # rest) cr ct pn = split_loop T rest (cr + rc) (ct @ [df]) pn"
  by (cases "ct = []") auto

lemma split_loop_concat:
  "concat (map snd (split_loop T (zip ts (map count_rows ts)) cr ct pn)) = ct @ ts"
  by (induction ts arbitrary: cr ct pn) auto

lemma split_loop_nonempty:
  "list_all (\<lambda>kg. snd kg \<noteq> []) (split_loop T (zip ts (map count_rows ts)) cr ct pn)"
  by (induction ts arbitrary: cr ct pn) auto

lemma upt_shift: "pn # [Suc pn ..< Suc pn + k] = [pn ..< pn + Suc k]"
  by (simp add: upt_conv_Cons)

lemma split_loop_numbers:
  "map fst (split_loop T (zip ts (map count_rows ts)) cr ct pn)
     = [pn ..< pn + length (split_loop T (zip ts (map count_rows ts)) cr ct pn)]"
proof (induction ts arbitrary: cr ct pn)
  case Nil
  then show ?case by simp
next
  case (Cons t ts)
  show ?case
  proof (cases "int (cr + count_rows t) > T \<and> ct \<noteq> []")
    case True
    then have eq: "split_loop T (zip (t # ts) (map count_rows (t # ts))) cr ct pn
        = (pn, ct) # split_loop T (zip ts (map count_rows ts)) (count_rows t) [t] (Suc pn)"
      by (simp del: split_loop.simps add: split_loop_close)
    have "map fst ((pn, ct) # split_loop T (zip ts (map count_rows ts)) (count_rows t) [t] (Suc pn))
        = pn # [Suc pn ..< Suc pn + length (split_loop T (zip ts (map count_rows ts)) (count_rows t) [t] (Suc pn))]"
      using Cons.IH [of "count_rows t" "[t]" "Suc pn"] by (simp only: list.map fst_conv)
    also have "\<dots> = [pn ..< pn + length ((pn, ct) # split_loop T (zip ts (map count_rows ts)) (count_rows t) [t] (Suc pn))]"
      by (simp only: upt_shift length_Cons)
    finally show ?thesis unfolding eq .
  next
    case False
    then have "split_loop T (zip (t # ts) (map count_rows (t # ts))) cr ct pn
        = split_loop T (zip ts (map count_rows ts)) (cr + count_rows t) (ct @ [t]) pn"
      by (simp del: split_loop.simps add: split_loop_extend)
    then show ?thesis
      using Cons.IH [of "cr + count_rows t" "ct @ [t]" pn] by (simp del: split_loop.simps)
  qed
qed

lemma split_loop_within:
  "cr = group_rows ct \<Longrightarrow> int cr \<le> T \<or> length ct \<le> 1 \<Longrightarrow>
   list_all (\<lambda>kg. int (group_rows (snd kg)) \<le> T \<or> length (snd kg) = 1)
     (split_loop T (zip ts (map count_rows ts)) cr ct pn)"
proof (induction ts arbitrary: cr ct pn)
  case Nil
  then show ?case by (cases ct) auto
next
  case (Cons t ts)
  show ?case
  proof (cases "int (cr + count_rows t) > T \<and> ct \<noteq> []")
    case True
    then have eq: "split_loop T (zip (t # ts) (map count_rows (t # ts))) cr ct pn
        = (pn, ct) # split_loop T (zip ts (map count_rows ts)) (count_rows t) [t] (Suc pn)"
      by (simp del: split_loop.simps add: split_loop_close)
    have "list_all (\<lambda>kg. int (group_rows (snd kg)) \<le> T \<or> length (snd kg) = 1)
            (split_loop T (zip ts (map count_rows ts)) (count_rows t) [t] (Suc pn))"
      by (rule Cons.IH) (simp_all add: group_rows_def)
    moreover have "int (group_rows ct) \<le> T \<or> length ct = 1"
      using True Cons.prems by (cases ct) auto
    ultimately show ?thesis unfolding eq by simp
  next
    case False
    then have eq: "split_loop T (zip (t # ts) (map count_rows (t # ts))) cr ct pn
        = split_loop T (zip ts (map count_rows ts)) (cr + count_rows t) (ct @ [t]) pn"
      by (simp del: split_loop.simps add: split_loop_extend)
    have "list_all (\<lambda>kg. int (group_rows (snd kg)) \<le> T \<or> length (snd kg) = 1)
            (split_loop T (zip ts (map count_rows ts)) (cr + count_rows t) (ct @ [t]) pn)"
      using False Cons.prems by (intro Cons.IH) (auto simp: group_rows_def)
    then show ?thesis unfolding eq .
  qed
qed

lemma split_loop_first:
  "ct \<noteq> [] \<Longrightarrow> \<exists>k g rest. split_loop T (zip ts (map count_rows ts)) cr ct pn = (k, g) # rest \<and> hd g = hd ct"
proof (induction ts arbitrary: cr ct pn)
  case Nil
  then show ?case by simp
next
  case (Cons t ts)
  show ?case
  proof (cases "int (cr + count_rows t) > T \<and> ct \<noteq> []")
    case True
    then show ?thesis by simp
  next
    case False
    then have eq: "split_loop T (zip (t # ts) (map count_rows (t # ts))) cr ct pn
        = split_loop T (zip ts (map count_rows ts)) (cr + count_rows t) (ct @ [t]) pn"
      by (simp del: split_loop.simps add: split_loop_extend)
    show ?thesis
      unfolding eq using Cons.IH [of "ct @ [t]" "cr + count_rows t" pn] Cons.prems by simp
  qed
qed

lemma split_loop_boundaries:
  "cr = group_rows ct \<Longrightarrow>
   boundaries_forced T (map snd (split_loop T (zip ts (map count_rows ts)) cr ct pn))"
proof (induction ts arbitrary: cr ct pn)
  case Nil
  then show ?case by simp
next
  case (Cons t ts)
  show ?case
  proof (cases "int (cr + count_rows t) > T \<and> ct \<noteq> []")
    case True
    then have eq: "split_loop T (zip (t # ts) (map count_rows (t # ts))) cr ct pn
        = (pn, ct) # split_loop T (zip ts (map count_rows ts)) (count_rows t) [t] (Suc pn)"
      by (simp del: split_loop.simps add: split_loop_close)
    obtain k g rest where r: "split_loop T (zip ts (map count_rows ts)) (count_rows t) [t] (Suc pn) = (k, g) # rest"
      and h: "hd g = t"
      using split_loop_first [of "[t]" T ts "count_rows t" "Suc pn"] by auto
    have "boundaries_forced T (map snd (split_loop T (zip ts (map count_rows ts)) (count_rows t) [t] (Suc pn)))"
      by (rule Cons.IH) (simp add: group_rows_def)
    then show ?thesis unfolding eq using True r h Cons.prems by simp
  next
    case False
    then have eq: "split_loop T (zip (t # ts) (map count_rows (t # ts))) cr ct pn
        = split_loop T (zip ts (map count_rows ts)) (cr + count_rows t) (ct @ [t]) pn"
      by (simp del: split_loop.simps add: split_loop_extend)
    have "boundaries_forced T (map snd (split_loop T (zip ts (map count_rows ts)) (cr + count_rows t) (ct @ [t]) pn))"
      using Cons.prems by (intro Cons.IH) (simp add: group_rows_def)
    then show ?thesis unfolding eq .
  qed
qed

lemma group_rows_concat:
  "sum_list (map (\<lambda>kg. group_rows (snd kg)) gs) = group_rows (concat (map snd gs))"
  by (induction gs) (simp_all add: group_rows_def)

lemma split_parts_rows:
  "sum_list (map (\<lambda>kg. group_rows (snd kg)) (split_parts T tables)) = group_rows tables"
  by (simp add: group_rows_concat split_parts_def split_loop_concat)


lemma count_rows_table_of_rows [simp]: "count_rows (table_of_rows n) = n"
  by (simp add: count_rows_def table_of_rows_def)

lemma render_html_direct:
  "\<not> splits cfg tables \<Longrightarrow>
   render_html (Suc n) e tables out cfg b fs =
     Some (render_from_outcomes e tables out cfg b (setup_warnings e)
             (submit_all tables) fs)"
  by (auto simp: splits_def)

lemma render_html_split:
  "splits cfg tables \<Longrightarrow>
   render_html (Suc n) e tables out cfg b fs =
     (case run_parts (\<lambda>g p s. map_option snd (render_html n e g p cfg False s)) out
             (split_parts (split_threshold cfg) tables) fs of
        Parts_raised fs1 \<Rightarrow>
          Some (render_from_outcomes e tables out cfg b
                  (setup_warnings e @ [split_failed_warning recursion_error])
                  (submit_all tables) fs1)
      | Parts_done fs1 \<Rightarrow>
         Some (\<lparr>r_warnings = setup_warnings e, r_tables = Some (length tables),
                r_rows = Some (sum_list (map count_rows tables)),
                r_parts = Some (map (\<lambda>kg. path_str (part_path out (fst kg)))
                                  (split_parts (split_threshold cfg) tables)),
                r_output = None, r_html = None\<rparr>,
               write_index e fs1 (index_path out)
                 (index_html (map (\<lambda>kg. part_file_name out (fst kg))
                                (split_parts (split_threshold cfg) tables)))))"
  by (auto simp: splits_def)

lemma render_html_returns:
  "\<exists>res fs'. render_html (Suc n) e tables out cfg b fs = Some (res, fs')"
  by (cases "splits cfg tables")
     (auto simp: render_html_split render_html_direct prod_eq_iff simp del: render_html.simps
        split: parts_run.splits)

lemma run_parts_done:
  "(\<And>g p s. render g p s \<noteq> None) \<Longrightarrow> \<exists>fs1. run_parts render out gs fs = Parts_done fs1"
proof (induction gs arbitrary: fs)
  case Nil
  then show ?case by simp
next
  case (Cons kg gs)
  obtain k g where kg: "kg = (k, g)" by (cases kg)
  obtain s' where "render g (part_path out k) fs = Some s'"
    using Cons.prems [of g "part_path out k" fs] by auto
  then show ?case using Cons.IH [OF Cons.prems, of s'] kg by simp
qed

lemma nested_parts_done:
  "\<exists>fs1. run_parts (\<lambda>g p s. map_option snd (render_html (Suc n) e g p cfg False s)) out gs fs
           = Parts_done fs1"
proof (rule run_parts_done)
  fix g p s
  show "map_option snd (render_html (Suc n) e g p cfg False s) \<noteq> None"
    using render_html_returns [of n e g p cfg False s] by (auto simp del: render_html.simps)
qed

lemma group_rows_small:
  "list_all (\<lambda>t. int (count_rows t) \<le> T) g \<Longrightarrow> int (group_rows g) \<le> T \<or> length g = 1
   \<Longrightarrow> int (group_rows g) \<le> T"
  by (cases g) (auto simp: group_rows_def)

lemma split_parts_groups_small:
  assumes "list_all (\<lambda>t. int (count_rows t) \<le> T) tables"
  shows "list_all (\<lambda>kg. int (group_rows (snd kg)) \<le> T) (split_parts T tables)"
proof -
  have w: "list_all (\<lambda>kg. int (group_rows (snd kg)) \<le> T \<or> length (snd kg) = 1) (split_parts T tables)"
    unfolding split_parts_def by (rule split_loop_within) (simp_all add: group_rows_def)
  have c: "concat (map snd (split_parts T tables)) = tables"
    by (simp add: split_parts_def split_loop_concat)
  have "\<And>kg. kg \<in> set (split_parts T tables) \<Longrightarrow> list_all (\<lambda>t. int (count_rows t) \<le> T) (snd kg)"
  proof -
    fix kg assume "kg \<in> set (split_parts T tables)"
    then have "set (snd kg) \<subseteq> set (concat (map snd (split_parts T tables)))" by auto
    then show "list_all (\<lambda>t. int (count_rows t) \<le> T) (snd kg)"
      using assms unfolding c by (auto simp: list_all_iff)
  qed
  then show ?thesis using w group_rows_small by (fastforce simp: list_all_iff)
qed

lemma write_index_written:
  "open_fails e path = None \<Longrightarrow> write_index e fs path text path = Some text"
  by (auto simp: write_index_def default_write_atomic_def Let_def split: option.splits write_result.splits)

lemma split_example:
  "count_rows a = 5 \<Longrightarrow> count_rows b = 5 \<Longrightarrow> count_rows c = 5 \<Longrightarrow>
   split_parts 8 [a, b, c] = [(1, [a]), (2, [b]), (3, [c])]"
  by (simp add: split_parts_def)

lemma part_path_name: "path_str (part_path out k) = out_dir out @ ''/'' @ part_file_name out k"
  by (simp add: path_str_def part_path_def part_file_name_def)

text \<open>
  The split loop: the groups, concatenated in order, are the input (they are contiguous, in
  input order, and no table is divided); no group is empty; the parts are numbered from 1;
  every boundary is forced; a group exceeds the threshold only when it is a single table; the
  rows of the groups add up to the total; three tables of 5 rows under a threshold of 8 give
  three parts of one table each.
\<close>

lemma split_parts_partition:
  "concat (map snd (split_parts T tables)) = tables
   \<and> list_all (\<lambda>kg. snd kg \<noteq> []) (split_parts T tables)
   \<and> map fst (split_parts T tables) = [1 ..< Suc (length (split_parts T tables))]
   \<and> boundaries_forced T (map snd (split_parts T tables))
   \<and> list_all (\<lambda>kg. int (group_rows (snd kg)) \<le> T \<or> length (snd kg) = 1) (split_parts T tables)
   \<and> sum_list (map (\<lambda>kg. group_rows (snd kg)) (split_parts T tables))
       = sum_list (map count_rows tables)
   \<and> split_parts 8 [table_of_rows 5, table_of_rows 5, table_of_rows 5]
       = [(1, [table_of_rows 5]), (2, [table_of_rows 5]), (3, [table_of_rows 5])]"
proof -
  have c1: "concat (map snd (split_parts T tables)) = tables"
    by (simp add: split_parts_def split_loop_concat)
  have c2: "list_all (\<lambda>kg. snd kg \<noteq> []) (split_parts T tables)"
    unfolding split_parts_def by (rule split_loop_nonempty)
  have c3: "map fst (split_parts T tables) = [1 ..< Suc (length (split_parts T tables))]"
    using split_loop_numbers [of T tables 0 "[]" 1] by (simp add: split_parts_def)
  have c4: "boundaries_forced T (map snd (split_parts T tables))"
    unfolding split_parts_def by (rule split_loop_boundaries) (simp add: group_rows_def)
  have c5: "list_all (\<lambda>kg. int (group_rows (snd kg)) \<le> T \<or> length (snd kg) = 1) (split_parts T tables)"
    unfolding split_parts_def by (rule split_loop_within) (simp_all add: group_rows_def)
  have c6: "sum_list (map (\<lambda>kg. group_rows (snd kg)) (split_parts T tables))
              = sum_list (map count_rows tables)"
    using split_parts_rows [of T tables] by (simp only: group_rows_def)
  have c9: "split_parts 8 [table_of_rows 5, table_of_rows 5, table_of_rows 5]
           = [(1, [table_of_rows 5]), (2, [table_of_rows 5]), (3, [table_of_rows 5])]"
    by (rule split_example) simp_all
  from c1 c2 c3 c4 c5 c6 c9 show ?thesis by blast
qed

text \<open>
  With two nested calls allowed, a call that takes the split path returns the split result:
  the part paths in the order of the groups, the total row count, and an index document of
  one link per part file name.
\<close>

lemma split_result:
  assumes "splits cfg tables"
  shows "\<exists>fs1. render_html (Suc (Suc n)) e tables out cfg b fs =
     Some (\<lparr>r_warnings = setup_warnings e, r_tables = Some (length tables),
            r_rows = Some (sum_list (map count_rows tables)),
            r_parts = Some (map (\<lambda>kg. path_str (part_path out (fst kg)))
                              (split_parts (split_threshold cfg) tables)),
            r_output = None, r_html = None\<rparr>,
           write_index e fs1 (index_path out)
             (index_html (map (\<lambda>kg. part_file_name out (fst kg))
                            (split_parts (split_threshold cfg) tables))))
     \<and> run_parts (\<lambda>g p s. map_option snd (render_html (Suc n) e g p cfg False s)) out
          (split_parts (split_threshold cfg) tables) fs = Parts_done fs1"
proof -
  obtain fs1 where "run_parts (\<lambda>g p s. map_option snd (render_html (Suc n) e g p cfg False s)) out
      (split_parts (split_threshold cfg) tables) fs = Parts_done fs1"
    using nested_parts_done by blast
  then show ?thesis by (simp add: render_html_split [OF assms] del: render_html.simps)
qed

text \<open>
  C4. The depth of the split recursion has no bound of its own. A single table of 10 rows
  under a threshold of 8 is its own only group; the recursive call for that part gets the same
  table and the same configuration and takes the split branch again. Whenever the interpreter
  allows two more nested calls, the call returns a split result (parts, no output) and what
  it leaves on the file system is what the call for its part leaves, one level deeper, with
  an index written after it: the part is split further at every depth the interpreter allows.
  The descent ends only where the interpreter refuses the next call; the handler of the split
  block then records the \<open>RecursionError\<close> and that innermost frame renders the table on the
  non-split path.
\<close>

theorem split_recursion_unbounded:
  "split_parts 8 [table_of_rows 10] = [(1, [table_of_rows 10])]
   \<and> splits (cfg\<lparr>split_threshold := 8\<rparr>) (snd (hd (split_parts 8 [table_of_rows 10])))
   \<and> render_html (Suc (Suc n)) e [table_of_rows 10] out (cfg\<lparr>split_threshold := 8\<rparr>) b fs
       = Some (\<lparr>r_warnings = setup_warnings e, r_tables = Some 1, r_rows = Some 10,
                r_parts = Some [path_str (part_path out 1)], r_output = None, r_html = None\<rparr>,
               write_index e
                 (snd (the (render_html (Suc n) e [table_of_rows 10] (part_path out 1)
                              (cfg\<lparr>split_threshold := 8\<rparr>) False fs)))
                 (index_path out) (index_html [part_file_name out 1]))
   \<and> render_html (Suc 0) e [table_of_rows 10] out (cfg\<lparr>split_threshold := 8\<rparr>) b fs
       = Some (render_from_outcomes e [table_of_rows 10] out (cfg\<lparr>split_threshold := 8\<rparr>) b
                 (setup_warnings e
                  @ [mk_warning Warn
                       ''split_threshold processing failed: maximum recursion depth exceeded''
                       None None None])
                 (submit_all [table_of_rows 10]) fs)
   \<and> render_html 0 e [table_of_rows 10] out (cfg\<lparr>split_threshold := 8\<rparr>) b fs = None"
proof -
  let ?cfg = "cfg\<lparr>split_threshold := 8\<rparr>"
  have p: "split_parts 8 [table_of_rows 10] = [(1, [table_of_rows 10])]"
    by (simp add: split_parts_def)
  have s: "splits ?cfg [table_of_rows 10]"
    by (simp add: splits_def)
  obtain r1 f1 where d: "render_html (Suc n) e [table_of_rows 10] (part_path out 1) ?cfg False fs
      = Some (r1, f1)"
    using render_html_returns by blast
  have r: "render_html (Suc (Suc n)) e [table_of_rows 10] out ?cfg b fs
       = Some (\<lparr>r_warnings = setup_warnings e, r_tables = Some 1, r_rows = Some 10,
                r_parts = Some [path_str (part_path out 1)], r_output = None, r_html = None\<rparr>,
               write_index e
                 (snd (the (render_html (Suc n) e [table_of_rows 10] (part_path out 1) ?cfg False fs)))
                 (index_path out) (index_html [part_file_name out 1]))"
    using d by (simp add: render_html_split [OF s, of "Suc n" e out b fs] p del: render_html.simps)
  have l: "render_html (Suc 0) e [table_of_rows 10] out ?cfg b fs
       = Some (render_from_outcomes e [table_of_rows 10] out ?cfg b
                 (setup_warnings e
                  @ [mk_warning Warn
                       ''split_threshold processing failed: maximum recursion depth exceeded''
                       None None None])
                 (submit_all [table_of_rows 10]) fs)"
    by (simp add: render_html_split [OF s] p split_failed_warning_def recursion_error_def)
  have z: "render_html 0 e [table_of_rows 10] out ?cfg b fs = None" by simp
  show ?thesis using s r l z by (simp only: p list.sel snd_conv simp_thms)
qed

subsection \<open>The fragment renderer\<close>

lemma mk_warning_sel [simp]:
  "w_level (mk_warning l m t r c) = l" "w_msg (mk_warning l m t r c) = m"
  "w_table (mk_warning l m t r c) = t" "w_row (mk_warning l m t r c) = r"
  "w_col (mk_warning l m t r c) = c"
  by (simp_all add: mk_warning_def)

lemma length_render_rows [simp]:
  "length (fst (render_rows e flag idx tid cols labels r rows)) = length rows"
  by (induction rows arbitrary: r) simp_all

lemma row_loop_prefix:
  "m \<le> length rows \<Longrightarrow>
   (\<And>k. k < m \<Longrightarrow> \<not> cancel_is_set cfg (r + k) \<and> \<not> limit_exceeded cfg (Suc (r + k))) \<Longrightarrow>
   row_loop e flag cfg idx tid cols labels err r rows =
     (fst (render_rows e flag idx tid cols labels r (take m rows))
        @ fst (row_loop e flag cfg idx tid cols labels err (r + m) (drop m rows)),
      fst (snd (row_loop e flag cfg idx tid cols labels err (r + m) (drop m rows))),
      snd (render_rows e flag idx tid cols labels r (take m rows))
        @ snd (snd (row_loop e flag cfg idx tid cols labels err (r + m) (drop m rows))))"
proof (induction m arbitrary: r rows)
  case 0
  then show ?case by simp
next
  case (Suc m)
  then obtain row rest where rows: "rows = row # rest" by (cases rows) auto
  have step: "\<not> cancel_is_set cfg r \<and> \<not> limit_exceeded cfg (Suc r)"
    using Suc.prems(2) [of 0] by simp
  have "\<And>k. k < m \<Longrightarrow> \<not> cancel_is_set cfg (Suc r + k) \<and> \<not> limit_exceeded cfg (Suc (Suc r + k))"
    using Suc.prems(2) by (metis Suc_less_eq add_Suc_shift)
  from Suc.IH [of rest "Suc r", OF _ this]
  have ih: "row_loop e flag cfg idx tid cols labels err (Suc r) rest =
     (fst (render_rows e flag idx tid cols labels (Suc r) (take m rest))
        @ fst (row_loop e flag cfg idx tid cols labels err (Suc r + m) (drop m rest)),
      fst (snd (row_loop e flag cfg idx tid cols labels err (Suc r + m) (drop m rest))),
      snd (render_rows e flag idx tid cols labels (Suc r) (take m rest))
        @ snd (snd (row_loop e flag cfg idx tid cols labels err (Suc r + m) (drop m rest))))"
    using Suc.prems(1) rows by simp
  show ?case
    unfolding rows using step by (simp add: ih Let_def)
qed

lemma row_loop_limit:
  assumes "table_row_limit cfg = int R" and "0 < R" and "R < length rows"
    and "\<And>k. k \<le> R \<Longrightarrow> \<not> cancel_is_set cfg k"
  shows "row_loop e flag cfg idx tid cols labels err 0 rows =
     (fst (render_rows e flag idx tid cols labels 0 (take R rows)), Suc R,
      snd (render_rows e flag idx tid cols labels 0 (take R rows))
        @ [mk_warning Warn ''table_row_limit exceeded'' (Some idx) (Some (Suc R)) None])"
proof -
  obtain row rest where d: "drop R rows = row # rest"
    using assms(3) by (cases "drop R rows") auto
  have stop: "row_loop e flag cfg idx tid cols labels err R (row # rest) =
      ([], Suc R, [mk_warning Warn ''table_row_limit exceeded'' (Some idx) (Some (Suc R)) None])"
    using assms(1,2) assms(4) [of R] by (simp add: limit_exceeded_def)
  have "row_loop e flag cfg idx tid cols labels err 0 rows =
     (fst (render_rows e flag idx tid cols labels 0 (take R rows))
        @ fst (row_loop e flag cfg idx tid cols labels err (0 + R) (drop R rows)),
      fst (snd (row_loop e flag cfg idx tid cols labels err (0 + R) (drop R rows))),
      snd (render_rows e flag idx tid cols labels 0 (take R rows))
        @ snd (snd (row_loop e flag cfg idx tid cols labels err (0 + R) (drop R rows))))"
    using assms by (intro row_loop_prefix) (auto simp: limit_exceeded_def)
  then show ?thesis by (simp only: add_0 d stop fst_conv snd_conv append_Nil2)
qed

lemma row_loop_cancel:
  assumes "cancel_is_set cfg k" and "\<And>j. j < k \<Longrightarrow> \<not> cancel_is_set cfg j" and "k < length rows"
    and "\<And>j. j \<le> k \<Longrightarrow> \<not> limit_exceeded cfg j"
  shows "row_loop e flag cfg idx tid cols labels err 0 rows =
     (fst (render_rows e flag idx tid cols labels 0 (take k rows)), k,
      snd (render_rows e flag idx tid cols labels 0 (take k rows))
        @ [mk_warning Warn ''canceled'' (Some idx) None None])"
proof -
  obtain row rest where d: "drop k rows = row # rest"
    using assms(3) by (cases "drop k rows") auto
  have stop: "row_loop e flag cfg idx tid cols labels err k (row # rest) =
      ([], k, [mk_warning Warn ''canceled'' (Some idx) None None])"
    using assms(1) by simp
  have "row_loop e flag cfg idx tid cols labels err 0 rows =
     (fst (render_rows e flag idx tid cols labels 0 (take k rows))
        @ fst (row_loop e flag cfg idx tid cols labels err (0 + k) (drop k rows)),
      fst (snd (row_loop e flag cfg idx tid cols labels err (0 + k) (drop k rows))),
      snd (render_rows e flag idx tid cols labels 0 (take k rows))
        @ snd (snd (row_loop e flag cfg idx tid cols labels err (0 + k) (drop k rows))))"
    using assms by (intro row_loop_prefix) auto
  then show ?thesis by (simp only: add_0 d stop fst_conv snd_conv append_Nil2)
qed

lemma row_loop_all:
  assumes "\<And>j. j < length rows \<Longrightarrow> \<not> cancel_is_set cfg j"
    and "\<And>j. j \<le> length rows \<Longrightarrow> \<not> limit_exceeded cfg j"
  shows "row_loop e flag cfg idx tid cols labels err 0 rows =
     (fst (render_rows e flag idx tid cols labels 0 rows), length rows,
      snd (render_rows e flag idx tid cols labels 0 rows)
        @ (case err of None \<Rightarrow> []
           | Some x \<Rightarrow> [mk_warning Error (''row iteration failed: '' @ x) (Some idx) None None]))"
proof -
  have "row_loop e flag cfg idx tid cols labels err 0 rows =
     (fst (render_rows e flag idx tid cols labels 0 (take (length rows) rows))
        @ fst (row_loop e flag cfg idx tid cols labels err (0 + length rows) (drop (length rows) rows)),
      fst (snd (row_loop e flag cfg idx tid cols labels err (0 + length rows) (drop (length rows) rows))),
      snd (render_rows e flag idx tid cols labels 0 (take (length rows) rows))
        @ snd (snd (row_loop e flag cfg idx tid cols labels err (0 + length rows) (drop (length rows) rows))))"
    using assms by (intro row_loop_prefix) auto
  then show ?thesis by simp
qed


lemma prepare_columns [simp]: "fst (prepare_table_stream e df) = df_columns df"
  by (simp add: prepare_table_stream_def split: option.splits prod.splits)

lemma write_thead_ok:
  "i + length cols \<le> length cts \<Longrightarrow>
   write_thead idx tid cts i (zip cols (map h cols)) =
     (concat (map (\<lambda>ic. th_cell idx tid (cts ! fst ic) (fst ic) (snd ic) (h (snd ic)))
                (zip [i ..< i + length cols] cols)), None)"
proof (induction cols arbitrary: i)
  case Nil
  then show ?case by simp
next
  case (Cons c cols)
  have u: "[i ..< i + length (c # cols)] = i # [Suc i ..< Suc i + length cols]"
    by (simp only: length_Cons upt_shift [symmetric])
  have "write_thead idx tid cts (Suc i) (zip cols (map h cols)) =
     (concat (map (\<lambda>ic. th_cell idx tid (cts ! fst ic) (fst ic) (snd ic) (h (snd ic)))
                (zip [Suc i ..< Suc i + length cols] cols)), None)"
    using Cons.prems by (intro Cons.IH) simp
  then show ?case using Cons.prems unfolding u by (simp add: Let_def)
qed

lemma fragment_text_ok:
  assumes "header_types_ok e df" and "streams_table e df"
  shows "fragment_text e idx df cfg flag =
     ((fragment_document e idx df (fst (table_loop e idx df cfg flag))
         (fst (snd (table_loop e idx df cfg flag))), None),
      snd (snd (table_loop e idx df cfg flag)))"
proof -
  have th: "write_thead idx (frag_table_id idx) (column_types e df) 0
              (zip (df_columns df) (map (header_html e) (df_columns df)))
            = (concat (header_cells e idx df), None)"
    using assms(1) write_thead_ok [of 0 "df_columns df" "column_types e df" idx "frag_table_id idx" "header_html e"]
    by (simp add: header_types_ok_def header_cells_def)
  have st: "snd (snd (prepare_table_stream e df)) = (df_rows df, df_iter_error df)"
    using assms(2) by (simp add: streams_table_def)
  show ?thesis
    by (simp add: fragment_text_def fragment_writer_def Let_def th st table_loop_def
        fragment_document_def fragment_head_def column_types_def [symmetric] sample_of_def [symmetric])
qed

lemma tmp_differs [simp]: "path @ ''.tmp'' \<noteq> path" "path \<noteq> path @ ''.tmp''"
  by (induction path) auto

lemma fragment_file_ok:
  assumes "header_types_ok e df" and "streams_table e df"
    and "no_write_fault e (frag_file_path dir idx)"
  shows "render_table_fragment_to_file e idx df dir cfg flag fs =
     ((idx, frag_file_path dir idx,
       count_lines (fragment_document e idx df (fst (table_loop e idx df cfg flag))
                      (fst (snd (table_loop e idx df cfg flag)))),
       snd (snd (table_loop e idx df cfg flag))),
      (fs(frag_file_path dir idx @ ''.tmp'' := None))
        (frag_file_path dir idx \<mapsto>
           fragment_document e idx df (fst (table_loop e idx df cfg flag))
             (fst (snd (table_loop e idx df cfg flag)))))"
  using assms(3)
  by (simp add: render_table_fragment_to_file_def fragment_text_ok [OF assms(1,2)]
      default_write_atomic_def no_write_fault_def Let_def)


lemma digit_nth: "n < 10 \<Longrightarrow> is_digit (''0123456789'' ! n)"
proof -
  have "list_all is_digit ''0123456789''" by (simp add: is_digit_def)
  moreover assume "n < 10"
  ultimately show ?thesis by (simp add: list_all_length)
qed

lemma show_nat_digits: "list_all is_digit (show_nat n) \<and> show_nat n \<noteq> []"
proof (induction n rule: show_nat.induct)
  case (1 n)
  show ?case
  proof (cases "n < 10")
    case True
    then show ?thesis by (subst (1 2) show_nat.simps) (simp add: digit_nth)
  next
    case False
    then show ?thesis using 1 by (subst (1 2) show_nat.simps) (simp add: digit_nth)
  qed
qed

lemma digit_facts:
  "is_digit c \<Longrightarrow> id_char c \<and> \<not> py_is_space c \<and> c \<noteq> CHR ''-'' \<and> py_lower_char c = c"
  by (auto simp: is_digit_def id_char_def py_is_space_def py_lower_char_def Let_def)

lemma dropWhile_none: "list_all (\<lambda>c. \<not> P c) s \<Longrightarrow> dropWhile P s = s"
  by (cases s) auto

lemma py_strip_plain: "list_all (\<lambda>c. \<not> py_is_space c) s \<Longrightarrow> py_strip s = s"
  by (simp add: py_strip_def dropWhile_none list_all_iff)

lemma strip_char_plain: "list_all (\<lambda>c. c \<noteq> d) s \<Longrightarrow> strip_char d s = s"
proof -
  assume a: "list_all (\<lambda>c. c \<noteq> d) s"
  then have "list_all (\<lambda>c. \<not> (c = d)) s" "list_all (\<lambda>c. \<not> (c = d)) (rev s)"
    by (simp_all add: list_all_iff)
  then show ?thesis by (simp add: strip_char_def dropWhile_none)
qed

lemma sub_runs_plain: "list_all (\<lambda>c. \<not> P c) s \<Longrightarrow> sub_runs P r b s = s"
  by (induction s arbitrary: b) auto

lemma sanitize_id_plain:
  assumes "s \<noteq> []" and "list_all (\<lambda>c. id_char c \<and> \<not> py_is_space c \<and> c \<noteq> CHR ''-'' \<and> py_lower_char c = c) s"
  shows "sanitize_id s i = s"
proof -
  have 1: "py_strip s = s" using assms(2) by (intro py_strip_plain) (simp add: list_all_iff)
  have 2: "py_lower s = s" using assms(2) by (simp add: py_lower_def list_all_iff map_idI)
  have 3: "sub_runs (\<lambda>c. \<not> id_char c) CHR ''-'' False s = s"
    using assms(2) by (intro sub_runs_plain) (simp add: list_all_iff)
  have 4: "sub_runs (\<lambda>c. c = CHR ''-'') CHR ''-'' False s = s"
    using assms(2) by (intro sub_runs_plain) (simp add: list_all_iff)
  have 5: "strip_char CHR ''-'' s = s"
    using assms(2) by (intro strip_char_plain) (simp add: list_all_iff)
  show ?thesis using assms(1) by (simp add: sanitize_id_def Let_def 1 2 3 4 5)
qed

lemma py_strip_Table: "list_all is_digit ds \<Longrightarrow> ds \<noteq> [] \<Longrightarrow> py_strip (''Table'' @ ds) = ''Table'' @ ds"
proof -
  assume d: "list_all is_digit ds" and ne: "ds \<noteq> []"
  have l: "\<not> py_is_space (last ds)" using d ne digit_facts by (simp add: list_all_iff)
  have "dropWhile py_is_space (rev ds @ ''elbaT'') = rev ds @ ''elbaT''"
    using l ne by (cases "rev ds") (auto simp: last_rev)
  then show ?thesis by (simp add: py_strip_def py_is_space_def)
qed

lemma frag_table_id_nonneg: "0 \<le> N \<Longrightarrow> frag_table_id N = ''table'' @ show_int N"
proof -
  assume "0 \<le> N"
  then have si: "show_int N = show_nat (nat N)" by (simp add: show_int_def)
  have d: "list_all is_digit (show_nat (nat N))" and ne: "show_nat (nat N) \<noteq> []"
    using show_nat_digits by auto
  have f: "list_all (\<lambda>c. id_char c \<and> \<not> py_is_space c \<and> c \<noteq> CHR ''-'' \<and> py_lower_char c = c) (show_nat (nat N))"
    using d digit_facts by (simp add: list_all_iff)
  have 1: "py_strip (''Table'' @ show_nat (nat N)) = ''Table'' @ show_nat (nat N)"
    by (rule py_strip_Table [OF d ne])
  have 2: "py_lower (''Table'' @ show_nat (nat N)) = ''table'' @ show_nat (nat N)"
    using f by (simp add: py_lower_def py_lower_char_def list_all_iff map_idI)
  have g: "list_all (\<lambda>c. id_char c \<and> \<not> py_is_space c \<and> c \<noteq> CHR ''-'' \<and> py_lower_char c = c) (''table'' @ show_nat (nat N))"
    using f by (simp add: id_char_def py_is_space_def py_lower_char_def)
  have 3: "sub_runs (\<lambda>c. \<not> id_char c) CHR ''-'' False (''table'' @ show_nat (nat N)) = ''table'' @ show_nat (nat N)"
    using g by (intro sub_runs_plain) (simp add: list_all_iff)
  have 4: "sub_runs (\<lambda>c. c = CHR ''-'') CHR ''-'' False (''table'' @ show_nat (nat N)) = ''table'' @ show_nat (nat N)"
    using g by (intro sub_runs_plain) (simp add: list_all_iff)
  have 5: "strip_char CHR ''-'' (''table'' @ show_nat (nat N)) = ''table'' @ show_nat (nat N)"
    using g by (intro strip_char_plain) (simp add: list_all_iff)
  show ?thesis
    unfolding frag_table_id_def sanitize_id_def si Let_def 1 2 3 4 5 by simp
qed

lemma th_attrs_lookup:
  "map_of (th_attrs idx tid ct i col) ''id'' = Some (tid @ ''-th-'' @ show_nat i)"
  "map_of (th_attrs idx tid ct i col) ''data-table-index'' = Some (show_int (idx - 1))"
  "map_of (th_attrs idx tid ct i col) ''data-col-index'' = Some (show_nat i)"
  by (simp_all add: th_attrs_def)

lemma cell_warnings_msgs:
  "list_all (\<lambda>w. w_msg w \<noteq> ''canceled'' \<and> w_msg w \<noteq> ''table_row_limit exceeded'')
     (snd (render_cell e flag idx tid cols labels r fcr ci v))"
  by (auto simp: render_cell_def cell_source_html_def Let_def mk_warning_def
      split: sum.splits option.splits)

lemma cells_warnings_msgs:
  "list_all (\<lambda>w. w_msg w \<noteq> ''canceled'' \<and> w_msg w \<noteq> ''table_row_limit exceeded'')
     (snd (render_cells e flag idx tid cols labels r fcr ci vs))"
  by (induction vs arbitrary: ci) (simp_all add: Let_def cell_warnings_msgs)

lemma rows_warnings_msgs:
  "list_all (\<lambda>w. w_msg w \<noteq> ''canceled'' \<and> w_msg w \<noteq> ''table_row_limit exceeded'')
     (snd (render_rows e flag idx tid cols labels r rows))"
  by (induction rows arbitrary: r) (simp_all add: render_row_def Let_def cells_warnings_msgs)

lemma filter_none: "list_all (\<lambda>w. \<not> P w) ws \<Longrightarrow> filter P ws = []"
  by (induction ws) auto


lemma table_rows_html_length [simp]:
  "length (fst (table_rows_html e flag idx df rows)) = length rows"
  by (simp add: table_rows_html_def)

lemma table_loop_limit:
  assumes "table_row_limit cfg = int R" and "0 < R" and "R < length (df_rows df)"
    and "\<forall>k\<le>R. \<not> cancel_is_set cfg k"
  shows "table_loop e idx df cfg flag =
     (fst (table_rows_html e flag idx df (take R (df_rows df))), Suc R,
      snd (table_rows_html e flag idx df (take R (df_rows df)))
        @ [mk_warning Warn ''table_row_limit exceeded'' (Some idx) (Some (Suc R)) None])"
  unfolding table_loop_def table_rows_html_def
  using assms by (intro row_loop_limit) auto

lemma table_loop_cancel:
  assumes "cancel_is_set cfg k" and "\<forall>j<k. \<not> cancel_is_set cfg j" and "k < length (df_rows df)"
    and "\<forall>j\<le>k. \<not> limit_exceeded cfg j"
  shows "table_loop e idx df cfg flag =
     (fst (table_rows_html e flag idx df (take k (df_rows df))), k,
      snd (table_rows_html e flag idx df (take k (df_rows df)))
        @ [mk_warning Warn ''canceled'' (Some idx) None None])"
  unfolding table_loop_def table_rows_html_def
  using assms by (intro row_loop_cancel) auto

lemma table_loop_all:
  assumes "\<forall>j<length (df_rows df). \<not> cancel_is_set cfg j"
    and "\<forall>j\<le>length (df_rows df). \<not> limit_exceeded cfg j"
  shows "table_loop e idx df cfg flag =
     (fst (table_rows_html e flag idx df (df_rows df)), length (df_rows df),
      snd (table_rows_html e flag idx df (df_rows df))
        @ (case df_iter_error df of None \<Rightarrow> []
           | Some x \<Rightarrow> [mk_warning Error (''row iteration failed: '' @ x) (Some idx) None None]))"
  unfolding table_loop_def table_rows_html_def
  using assms by (intro row_loop_all) auto

lemma table_rows_warnings:
  "filter (\<lambda>w. w_msg w = ''canceled'') (snd (table_rows_html e flag idx df rows)) = []"
  "filter (\<lambda>w. w_msg w = ''table_row_limit exceeded'') (snd (table_rows_html e flag idx df rows)) = []"
  using rows_warnings_msgs [of e flag idx "frag_table_id idx" "df_columns df"
      "map (header_plain_label e) (df_columns df)" 0 rows]
  by (auto simp: table_rows_html_def list_all_iff filter_empty_conv)





lemma count_lines_no_break:
  "s \<noteq> [] \<Longrightarrow> CHR 0x0A \<notin> set s \<Longrightarrow> CHR 0x0D \<notin> set s \<Longrightarrow> count_lines s = 1"
  by (induction s rule: count_lines.induct) auto

lemma sample_env_sel [simp]:
  "markdown_to_html sample_env = (\<lambda>s. Some s)"
  "sanitize_html_whitelist sample_env = (\<lambda>s. Some s)"
  "normalize_cell sample_env = (\<lambda>s. Inr s)"
  "unescape_brackets sample_env = (\<lambda>s. Some s)"
  "detect_column_types sample_env = (\<lambda>rows cols. replicate (length cols) ''text'')"
  "take_and_stream sample_env = (\<lambda>st n. Some (take n (fst st), st))"
  "convert_render_table sample_env = None"
  "html_unescape sample_env = (\<lambda>s. s)"
  "h3_search sample_env = (\<lambda>s. None)"
  "to_html sample_env = (\<lambda>df. None)"
  "open_fails sample_env = (\<lambda>p. None)"
  "replace_fails sample_env = (\<lambda>p. None)"
  "mkdir_frag_fails sample_env = False"
  "setup_warnings sample_env = []"
  by (simp_all add: sample_env_def)

lemma table_of_rows_sel [simp]:
  "df_columns (table_of_rows n) = [''a'']"
  "df_rows (table_of_rows n) = replicate n [SStr ''x'']"
  "df_iter_error (table_of_rows n) = None"
  "df_title (table_of_rows n) = None"
  "df_name (table_of_rows n) = None"
  by (simp_all add: table_of_rows_def)

lemma sample_ok [simp]:
  "header_types_ok sample_env (table_of_rows n)"
  "streams_table sample_env (table_of_rows n)"
  "no_write_fault sample_env p"
  by (simp_all add: header_types_ok_def column_types_def streams_table_def prepare_table_stream_def
      no_write_fault_def)

lemma sample_table_id: "frag_table_id 1 = ''table1''"
  using frag_table_id_nonneg [of 1] by (simp add: show_int_def show_nat.simps)

lemma sample_sample:
  "0 < n \<Longrightarrow> sample_of sample_env (table_of_rows n) \<noteq> []
     \<and> hd (sample_of sample_env (table_of_rows n)) = [SStr ''x'']"
  by (cases n) (simp_all add: sample_of_def prepare_table_stream_def)

lemma sample_titles:
  "0 < n \<Longrightarrow> derive_titles sample_env 1 [''a''] (sample_of sample_env (table_of_rows n)) (table_of_rows n)
     = (''x'', ''x'', ''x'', ''x'')"
  using sample_sample [of n]
  by (simp add: derive_titles_def Let_def sample_title_def attr_title_def first_candidate_def
      sanitize_id_def py_strip_def py_is_space_def py_lower_def py_lower_char_def id_char_def
      strip_char_def)

lemma sample_head_no_break:
  "0 < n \<Longrightarrow> CHR 0x0A \<notin> set (fragment_head sample_env 1 (table_of_rows n))
     \<and> CHR 0x0D \<notin> set (fragment_head sample_env 1 (table_of_rows n))"
  by (simp add: fragment_head_def Let_def sample_titles sample_table_id
      header_cells_def column_types_def th_cell_def th_body_def th_attrs_def open_tag_def
      fragment_open_def safe_caption_def header_html_def html_escape_def attr_escape_def
      replace_char_def py_strip_def py_is_space_def show_int_def show_nat.simps)

lemma sample_row:
  "render_row sample_env True 1 ''table1'' [''a''] labels r [SStr ''x'']
     = (''<tr><td data-label='' @ [CHR 0x22] @ (if 0 < length labels then labels ! 0 else ''a'') @ [CHR 0x22]
          @ ''>x</td></tr>'', [])"
  by (simp add: render_row_def render_cell_def cell_source_html_def sanitize_cell_def Let_def
      is_heading_def enumerator_match_def upper_is_self_def upper_changes_def is_digit_def
      py_strip_def py_is_space_def attr_escape_def replace_char_def)


lemma sample_labels: "header_plain_label sample_env ''a'' = ''a''"
  by (simp add: header_plain_label_def header_html_def py_strip_def py_is_space_def attr_escape_def
      replace_char_def)

lemma sample_rows_no_break:
  "CHR 0x0A \<notin> set (concat (fst (render_rows sample_env True 1 ''table1'' [''a''] [''a''] r
                                   (replicate m [SStr ''x'']))))
   \<and> CHR 0x0D \<notin> set (concat (fst (render_rows sample_env True 1 ''table1'' [''a''] [''a''] r
                                   (replicate m [SStr ''x'']))))"
  by (induction m arbitrary: r) (simp_all add: sample_row)

lemma show_nat_no_break: "CHR 0x0A \<notin> set (show_nat n) \<and> CHR 0x0D \<notin> set (show_nat n)"
proof -
  have "\<And>c. is_digit c \<Longrightarrow> c \<noteq> CHR 0x0A \<and> c \<noteq> CHR 0x0D"
    by (auto simp: is_digit_def)
  then show ?thesis using show_nat_digits [of n] by (auto simp: list_all_iff)
qed

lemma fragment_close_no_break:
  "CHR 0x0A \<notin> set (fragment_close r c) \<and> CHR 0x0D \<notin> set (fragment_close r c)"
  by (simp add: fragment_close_def show_nat_no_break)

lemma sample_table_rows_no_break:
  "CHR 0x0A \<notin> set (concat (fst (table_rows_html sample_env True 1 (table_of_rows n) (replicate m [SStr ''x'']))))
   \<and> CHR 0x0D \<notin> set (concat (fst (table_rows_html sample_env True 1 (table_of_rows n) (replicate m [SStr ''x'']))))"
  unfolding table_rows_html_def table_of_rows_sel list.map sample_table_id sample_labels
  by (rule sample_rows_no_break)

lemma no_break_append:
  "c \<notin> set a \<Longrightarrow> c \<notin> set b \<Longrightarrow> c \<notin> set (a @ b)"
  by simp

lemma sample_fragment_lines:
  "0 < n \<Longrightarrow>
   count_lines (fragment_document sample_env 1 (table_of_rows n)
                  (fst (table_rows_html sample_env True 1 (table_of_rows n) (replicate m [SStr ''x'']))) r) = 1"
proof -
  assume n: "0 < n"
  have ne: "fragment_document sample_env 1 (table_of_rows n)
                  (fst (table_rows_html sample_env True 1 (table_of_rows n) (replicate m [SStr ''x'']))) r \<noteq> []"
    by (simp add: fragment_document_def)
  have tb: "CHR 0x0A \<notin> set ''<tbody>''" "CHR 0x0D \<notin> set ''<tbody>''" by simp_all
  show ?thesis
    unfolding fragment_document_def
    apply (rule count_lines_no_break)
    using ne apply (simp add: fragment_document_def)
     apply (intro no_break_append conjunct1 [OF sample_head_no_break [OF n]] tb
        conjunct1 [OF sample_table_rows_no_break] conjunct1 [OF fragment_close_no_break])
    apply (intro no_break_append conjunct2 [OF sample_head_no_break [OF n]] tb
        conjunct2 [OF sample_table_rows_no_break] conjunct2 [OF fragment_close_no_break])
    done
qed





lemma sample_head_text:
  \<open>0 < n \<Longrightarrow> fragment_head sample_env 1 (table_of_rows n) =
     ''<div class="table-wrapper" id="table1"><h3 id="x">x</h3><div class="table-header-wrapper header-controls"><div class="copy-buttons"><button type="button" class="copy-plain-btn" data-table-index="0" aria-label="Copy table as plain text">Copy Plain Table</button><button type="button" class="copy-md-btn" data-table-index="0" aria-label="Copy table as markdown">Copy Markdown Table</button></div><div class="header-actions"><button type="button" class="toggle-table-btn" data-table-index="0" aria-label="Toggle table">Collapse Table</button></div></div><div class="table-container"><table><caption>x</caption><thead><tr><th id="table1-th-0" class="col-text" data-table-index="0" data-col-index="0" role="button" aria-label="Sort by a"><div class="th-with-sort"><div class="th-label">a</div><button type="button" class="sort-btn sort-state-0" data-table-index="0" data-col-index="0" title="Toggle sort" aria-label="Toggle sort"><span class="sort-icon" aria-hidden="true"></span></button></div></th></tr></thead>''\<close>
  by (simp add: fragment_head_def Let_def sample_titles sample_table_id
      header_cells_def column_types_def th_cell_def th_body_def th_attrs_def open_tag_def
      fragment_open_def safe_caption_def header_html_def html_escape_def attr_escape_def
      replace_char_def py_strip_def py_is_space_def show_int_def show_nat.simps)

lemma sample_render_rows_text:
  \<open>concat (fst (render_rows sample_env True 1 ''table1'' [''a''] [''a''] r (replicate m [SStr ''x''])))
     = concat (replicate m ''<tr><td data-label="a">x</td></tr>'')\<close>
  by (induction m arbitrary: r) (simp_all add: sample_row)

lemma sample_rows_text:
  \<open>concat (fst (table_rows_html sample_env True 1 (table_of_rows n) (replicate m [SStr ''x''])))
     = concat (replicate m ''<tr><td data-label="a">x</td></tr>'')\<close>
  unfolding table_rows_html_def table_of_rows_sel list.map sample_table_id sample_labels
  by (rule sample_render_rows_text)



lemma fragment_text_head:
  assumes "header_types_ok e df"
  shows "\<exists>rest. fst (fst (fragment_text e idx df cfg flag)) = fragment_head e idx df @ rest"
proof -
  have th: "write_thead idx (frag_table_id idx) (column_types e df) 0
              (zip (df_columns df) (map (header_html e) (df_columns df)))
            = (concat (header_cells e idx df), None)"
    using assms write_thead_ok [of 0 "df_columns df" "column_types e df" idx "frag_table_id idx" "header_html e"]
    by (simp add: header_types_ok_def header_cells_def)
  show ?thesis
    by (simp add: fragment_text_def fragment_writer_def Let_def th
        fragment_head_def column_types_def [symmetric] sample_of_def [symmetric])
qed

lemma header_cells_nth:
  "i < length (df_columns df) \<Longrightarrow>
   header_cells e idx df ! i =
     th_cell idx (frag_table_id idx) (column_types e df ! i) i (df_columns df ! i)
       (header_html e (df_columns df ! i))"
  by (simp add: header_cells_def)

text \<open>
  C8 (as amended). In the fragment of table \<open>N \<ge> 1\<close>, the header cell of column position
  \<open>i\<close> opens with a tag whose \<open>data-table-index\<close> is \<open>N - 1\<close>, whose \<open>data-col-index\<close>
  is \<open>i\<close>, and whose \<open>id\<close> is \<open>table{N}-th-{i}\<close>, in lower case: the table id goes through
  \<open>_sanitize_id\<close>, which lower-cases it.
\<close>

theorem header_cell_attributes:
  assumes "1 \<le> N" and "header_types_ok e df" and "i < length (df_columns df)"
  shows "(\<exists>rest. fst (fst (fragment_text e N df cfg flag)) = fragment_head e N df @ rest)
       \<and> (\<exists>pre. fragment_head e N df = pre @ concat (header_cells e N df) @ ''</tr></thead>'')
       \<and> length (header_cells e N df) = length (df_columns df)
       \<and> header_cells e N df ! i
           = open_tag ''th'' (th_attrs N (frag_table_id N) (column_types e df ! i) i (df_columns df ! i))
             @ th_body N i (header_html e (df_columns df ! i))
       \<and> map_of (th_attrs N (frag_table_id N) (column_types e df ! i) i (df_columns df ! i))
            ''data-table-index'' = Some (show_int (N - 1))
       \<and> map_of (th_attrs N (frag_table_id N) (column_types e df ! i) i (df_columns df ! i))
            ''data-col-index'' = Some (show_nat i)
       \<and> map_of (th_attrs N (frag_table_id N) (column_types e df ! i) i (df_columns df ! i))
            ''id'' = Some (''table'' @ show_int N @ ''-th-'' @ show_nat i)"
proof -
  have t: "frag_table_id N = ''table'' @ show_int N"
    using assms(1) by (intro frag_table_id_nonneg) simp
  have 1: "\<exists>rest. fst (fst (fragment_text e N df cfg flag)) = fragment_head e N df @ rest"
    by (rule fragment_text_head [OF assms(2)])
  have 2: "\<exists>pre. fragment_head e N df = pre @ concat (header_cells e N df) @ ''</tr></thead>''"
    by (simp add: fragment_head_def Let_def)
  have 3: "length (header_cells e N df) = length (df_columns df)"
    by (simp add: header_cells_def)
  have 4: "header_cells e N df ! i
           = open_tag ''th'' (th_attrs N (frag_table_id N) (column_types e df ! i) i (df_columns df ! i))
             @ th_body N i (header_html e (df_columns df ! i))"
    by (simp add: header_cells_nth [OF assms(3)] th_cell_def)
  have 7: "map_of (th_attrs N (frag_table_id N) (column_types e df ! i) i (df_columns df ! i))
            ''id'' = Some (''table'' @ show_int N @ ''-th-'' @ show_nat i)"
    by (simp add: th_attrs_lookup t)
  from 1 2 3 4 7 show ?thesis by (simp only: th_attrs_lookup simp_thms)
qed

theorem header_cell_attributes_witness:
  "(1::int) \<le> 1 \<and> header_types_ok sample_env (table_of_rows 3)
   \<and> 0 < length (df_columns (table_of_rows 3))
   \<and> map_of (th_attrs 1 (frag_table_id 1) (column_types sample_env (table_of_rows 3) ! 0) 0
               (df_columns (table_of_rows 3) ! 0)) ''data-table-index'' = Some (show_int (1 - 1))
   \<and> map_of (th_attrs 1 (frag_table_id 1) (column_types sample_env (table_of_rows 3) ! 0) 0
               (df_columns (table_of_rows 3) ! 0)) ''id'' = Some (''table'' @ show_int 1 @ ''-th-'' @ show_nat 0)"
proof -
  have h1: "(1::int) \<le> 1" by simp
  have h2: "header_types_ok sample_env (table_of_rows 3)" by simp
  have h3: "0 < length (df_columns (table_of_rows 3))" by simp
  note th = header_cell_attributes [OF h1 h2 h3, where cfg = sample_cfg and flag = True]
  from h1 h2 h3 th show ?thesis by blast
qed

text \<open>
  C8 fails as stated: for table 1, column 0, the id is \<open>table1-th-0\<close> and not
  \<open>Table1-th-0\<close>.
\<close>

theorem header_cell_id_counterexample:
  "map_of (th_attrs 1 (frag_table_id 1) ''text'' 0 ''a'') ''id'' = Some ''table1-th-0''
   \<and> map_of (th_attrs 1 (frag_table_id 1) ''text'' 0 ''a'') ''id'' \<noteq> Some ''Table1-th-0''"
  by (simp add: th_attrs_lookup sample_table_id show_nat.simps)

subsection \<open>The orchestrator\<close>

lemma collect_one_rows: "total_rows (collect_one e fs a st) = total_rows st + outcome_lines a"
  by (cases a) (auto simp: collect_one_def split: prod.splits)

lemma collect_one_warnings: "warnings (collect_one e fs a st) = warnings st @ outcome_warnings a"
  by (cases a) (auto simp: collect_one_def split: prod.splits)

lemma collect_fold_rows:
  "total_rows (fold (collect_one e fs) outs st) = total_rows st + sum_list (map outcome_lines outs)"
  by (induction outs arbitrary: st) (simp_all add: collect_one_rows)

lemma collect_fold_warnings:
  "warnings (fold (collect_one e fs) outs st) = warnings st @ concat (map outcome_warnings outs)"
  by (induction outs arbitrary: st) (simp_all add: collect_one_warnings)

lemma collect_rows: "total_rows (collect_results e fs outs ws) = sum_list (map outcome_lines outs)"
  by (simp add: collect_results_def collect_fold_rows)

lemma collect_warnings:
  "warnings (collect_results e fs outs ws) = ws @ concat (map outcome_warnings outs)"
  by (simp add: collect_results_def collect_fold_warnings)

lemma collect_fold_failed:
  "list_all (\<lambda>out. \<exists>err. out = Inl err) outs \<Longrightarrow>
   fragments_map (fold (collect_one e fs) outs st) = fragments_map st"
  by (induction outs arbitrary: st) (auto simp: collect_one_def)

lemma write_ok:
  "no_write_fault e path \<Longrightarrow>
   default_write_atomic e fs path (text, None) = (Written, (fs(path @ ''.tmp'' := None))(path \<mapsto> text))"
  by (simp add: no_write_fault_def default_write_atomic_def)

lemma write_raises_result:
  "write_raises e path err \<Longrightarrow>
   write_error (fst (default_write_atomic e fs path (text, None))) = Some err
   \<and> snd (default_write_atomic e fs path (text, None)) path = fs path"
  by (auto simp: write_raises_def default_write_atomic_def)

lemma gz_differs [simp]: "path @ ''.gz'' \<noteq> path" "path \<noteq> path @ ''.gz''"
  by (induction path) auto

lemma take_past_prefix: "take (length A + k) (A @ B) = A @ take k B"
  by simp

lemma cleanup_keeps_output:
  assumes "CHR ''/'' \<notin> set (out_stem out @ out_suffix out)"
  shows "cleanup e out fs (path_str out) = fs (path_str out)"
proof (cases "mkdir_frag_fails e")
  case True
  then show ?thesis by (simp add: cleanup_def tmp_frag_dir_def)
next
  case False
  let ?X = "''.frags_'' @ show_nat (now_ms e) @ ''/''"
  let ?name = "out_stem out @ out_suffix out"
  have d: "tmp_frag_dir e out @ ''/'' = (out_dir out @ ''/'') @ ?X"
    using False by (simp add: tmp_frag_dir_def)
  have p: "path_str out = (out_dir out @ ''/'') @ ?name" by (simp add: path_str_def)
  have "take (Suc (length (tmp_frag_dir e out))) (path_str out) \<noteq> tmp_frag_dir e out @ ''/''"
  proof
    assume eq: "take (Suc (length (tmp_frag_dir e out))) (path_str out) = tmp_frag_dir e out @ ''/''"
    have l: "Suc (length (tmp_frag_dir e out)) = length (out_dir out @ ''/'') + length ?X"
      using False by (simp add: tmp_frag_dir_def)
    have "take (length (out_dir out @ ''/'') + length ?X) ((out_dir out @ ''/'') @ ?name)
            = (out_dir out @ ''/'') @ take (length ?X) ?name"
      by (rule take_past_prefix)
    then have "take (length ?X) ?name = ?X"
      using eq unfolding l p d by simp
    then have "set ?X \<subseteq> set ?name" by (metis set_take_subset)
    then show False using assms by auto
  qed
  then show ?thesis by (simp add: cleanup_def rmtree_def)
qed


lemma render_from_outcomes_ok:
  assumes "no_write_fault e (path_str out)"
  shows "fst (render_from_outcomes e tables out cfg b ws outs fs) =
     \<lparr>r_warnings = accumulated e tables (collect_results e fs outs ws) @ gzip_warnings e cfg out,
      r_tables = Some (length tables),
      r_rows = Some (total_rows (collect_results e fs outs ws)),
      r_parts = None,
      r_output = Some (path_str out),
      r_html = (if b then Some (universal_newlines
                                  (assembled e tables fs (fragments_map (collect_results e fs outs ws))))
                else None)\<rparr>"
  by (cases "fst (fallback_decision (fragments_map (collect_results e fs outs ws)))")
     (auto simp: render_from_outcomes_def Let_def write_ok [OF assms] accumulated_def assembled_def
        gzip_warnings_def split: option.splits)

lemma render_from_outcomes_file:
  assumes "no_write_fault e (path_str out)" and "CHR ''/'' \<notin> set (out_stem out @ out_suffix out)"
  shows "snd (render_from_outcomes e tables out cfg b ws outs fs) (path_str out) =
     Some (assembled e tables fs (fragments_map (collect_results e fs outs ws)))"
  by (cases "fst (fallback_decision (fragments_map (collect_results e fs outs ws)))")
     (auto simp: render_from_outcomes_def Let_def write_ok [OF assms(1)] assembled_def
        cleanup_keeps_output [OF assms(2)] split: option.splits)

lemma render_from_outcomes_fail:
  assumes "write_raises e (path_str out) err"
  shows "fst (render_from_outcomes e tables out cfg b ws outs fs) =
     \<lparr>r_warnings = accumulated e tables (collect_results e fs outs ws)
                     @ [mk_warning Error (''write_failed: '' @ err) None None None],
      r_tables = None, r_rows = None, r_parts = None, r_output = None, r_html = None\<rparr>
   \<and> snd (render_from_outcomes e tables out cfg b ws outs fs) (path_str out) = fs (path_str out)"
  by (cases "fst (fallback_decision (fragments_map (collect_results e fs outs ws)))")
     (simp_all add: render_from_outcomes_def Let_def write_raises_result [OF assms] accumulated_def)


lemma map_submitted:
  "map (\<lambda>(i, df). submitted_task i df) zs
     = replicate (length zs)
         (Inl ''_render_table_fragment_to_file() takes 7 positional arguments but 8 were given'')"
  by (induction zs) (auto simp: submitted_task_def)

lemma submit_all_failed:
  "submit_all tables
     = replicate (length tables)
         (Inl ''_render_table_fragment_to_file() takes 7 positional arguments but 8 were given'')"
proof -
  have "length [1 ..< Suc (length tables)] = length tables" by (simp only: length_upt diff_Suc_1)
  then have "length (zip [1 ..< Suc (length tables)] tables) = length tables"
    by (simp only: length_zip min.idem)
  then show ?thesis unfolding submit_all_def map_submitted by (simp only:)
qed

lemma concat_replicate_single: "concat (replicate n [w]) = replicate n w"
  by (induction n) simp_all

lemma collect_submitted:
  "fragments_map (collect_results e fs (submit_all tables) ws) = []"
  "total_rows (collect_results e fs (submit_all tables) ws) = 0"
  "warnings (collect_results e fs (submit_all tables) ws)
     = ws @ replicate (length tables) task_failed_warning"
proof -
  show "fragments_map (collect_results e fs (submit_all tables) ws) = []"
    unfolding collect_results_def submit_all_failed
    by (subst collect_fold_failed) (simp_all add: list_all_iff)
  show "total_rows (collect_results e fs (submit_all tables) ws) = 0"
    by (simp add: collect_rows submit_all_failed)
  show "warnings (collect_results e fs (submit_all tables) ws)
     = ws @ replicate (length tables) task_failed_warning"
    by (simp add: collect_warnings submit_all_failed task_failed_warning_def
        concat_replicate_single map_replicate)
qed

lemma accumulated_submitted:
  "accumulated e tables (collect_results e fs (submit_all tables) ws)
     = ws @ replicate (length tables) task_failed_warning @ [no_fragments_warning]
       @ snd (snd (inline_tables e 1 tables))"
  by (simp add: collect_submitted accumulated_def fallback_decision_def)

lemma not_any_with_rows:
  "(\<not> any_with_rows fm) = list_all (\<lambda>kv. \<not> frag_contains_rows (fm_content (snd kv))) fm"
  by (simp add: any_with_rows_def list_all_iff list_ex_iff)

lemma search_append: "tbody_tr_at b \<Longrightarrow> b \<noteq> [] \<Longrightarrow> search_tbody_tr (a @ b)"
proof (induction a)
  case Nil
  then show ?case by (cases b) simp_all
next
  case (Cons c a)
  then show ?case by simp
qed

lemma rows_start:
  "rows \<noteq> [] \<Longrightarrow> \<exists>rest. concat (fst (render_rows e flag idx tid cols labels r rows)) = ''<tr>'' @ rest"
  by (cases rows) (simp_all add: render_row_def Let_def)

lemma document_contains_rows:
  assumes "rows \<noteq> []"
  shows "frag_contains_rows (fragment_document e idx df (fst (table_rows_html e flag idx df rows)) r)"
proof -
  obtain rest where c: "concat (fst (table_rows_html e flag idx df rows)) = ''<tr>'' @ rest"
    using rows_start [OF assms] unfolding table_rows_html_def by blast
  have t: "tbody_tr_at (''<tbody>'' @ ''<tr>'' @ rest @ fragment_close r (length (df_columns df)))"
    by (simp add: tbody_tr_at_def py_lower_char_def py_is_space_def)
  have "search_tbody_tr (fragment_head e idx df
          @ (''<tbody>'' @ ''<tr>'' @ rest @ fragment_close r (length (df_columns df))))"
    by (rule search_append [OF t]) simp
  then show ?thesis by (simp add: frag_contains_rows_def fragment_document_def c)
qed


text \<open>
  As the tasks are submitted, every future raises: \<open>render_html\<close> collects no fragment,
  reports 0 rows and takes the fallback.
\<close>

lemma render_html_collects_no_fragment:
  assumes "\<not> splits cfg tables" and "no_write_fault e (path_str out)"
  shows "\<exists>res fs'. render_html (Suc n) e tables out cfg b fs = Some (res, fs')
           \<and> r_rows res = Some 0
           \<and> r_warnings res
               = setup_warnings e @ replicate (length tables) task_failed_warning
                 @ [no_fragments_warning] @ snd (snd (inline_tables e 1 tables))
                 @ gzip_warnings e cfg out"
  using render_from_outcomes_ok [OF assms(2), of tables cfg b "setup_warnings e" "submit_all tables" fs]
  by (simp add: render_html_direct [OF assms(1)] accumulated_submitted collect_submitted prod_eq_iff
      del: render_html.simps)

lemma sample_loop_all:
  "table_loop sample_env 1 (table_of_rows n) sample_cfg True =
     (fst (table_rows_html sample_env True 1 (table_of_rows n) (df_rows (table_of_rows n))),
      length (df_rows (table_of_rows n)),
      snd (table_rows_html sample_env True 1 (table_of_rows n) (df_rows (table_of_rows n))) @ [])"
proof -
  have "table_loop sample_env 1 (table_of_rows n) sample_cfg True =
     (fst (table_rows_html sample_env True 1 (table_of_rows n) (df_rows (table_of_rows n))),
      length (df_rows (table_of_rows n)),
      snd (table_rows_html sample_env True 1 (table_of_rows n) (df_rows (table_of_rows n)))
        @ (case df_iter_error (table_of_rows n) of None \<Rightarrow> []
           | Some x \<Rightarrow> [mk_warning Error (''row iteration failed: '' @ x) (Some 1) None None]))"
    by (rule table_loop_all) (simp_all add: cancel_is_set_def limit_exceeded_def sample_cfg_def)
  then show ?thesis by simp
qed

lemma sample_fragment_result:
  "0 < n \<Longrightarrow>
   render_table_fragment_to_file sample_env 1 (table_of_rows n) dir sample_cfg True fs =
     ((1, frag_file_path dir 1, 1, snd (table_rows_html sample_env True 1 (table_of_rows n) (replicate n [SStr ''x'']))),
      (fs(frag_file_path dir 1 @ ''.tmp'' := None))
        (frag_file_path dir 1 \<mapsto>
           fragment_document sample_env 1 (table_of_rows n)
             (fst (table_rows_html sample_env True 1 (table_of_rows n) (replicate n [SStr ''x'']))) n))"
  by (simp add: fragment_file_ok sample_loop_all sample_fragment_lines)


lemma universal_newlines_plain: "CHR 0x0D \<notin> set s \<Longrightarrow> universal_newlines s = s"
  by (induction s rule: universal_newlines.induct) auto

lemma copied_fragments_expand:
  "copied_fragments fs (map fm_path frags)
     = concat (map (\<lambda>m. case fs (fm_path m) of Some c \<Rightarrow> universal_newlines c | None \<Rightarrow> []) frags)"
  by (simp add: copied_fragments_def comp_def)



lemma sample_fragment_no_cr:
  "0 < n \<Longrightarrow>
   CHR 0x0D \<notin> set (fragment_document sample_env 1 (table_of_rows n)
                       (fst (table_rows_html sample_env True 1 (table_of_rows n) (replicate m [SStr ''x'']))) r)"
  unfolding fragment_document_def
  by (intro no_break_append conjunct2 [OF sample_head_no_break]
        conjunct2 [OF sample_table_rows_no_break] conjunct2 [OF fragment_close_no_break]) simp_all

lemma sample_inline:
  "inline_tables sample_env 1 [table_of_rows 2]
     = ([''<h3 id='' @ [CHR 0x27] @ ''Table1'' @ [CHR 0x27] @ ''>Table 1</h3>'' @ [CHR 0x0A]
           @ ''<p>(failed to render table)</p>''],
        [toc_item ''Table1'' ''Table 1''], [])"
  by (simp add: inline_piece_def inline_toc_item_def failed_piece_def table_heading_def Let_def
      show_nat.simps)

lemma sample_toc_items:
  \<open>toc_item ''Table1'' ''Table 1'' = ''<li class="toc-item"><a class="toc-link" href="#Table1">Table 1</a></li>''\<close>
  \<open>toc_item ''Table2'' ''Table 2'' = ''<li class="toc-item"><a class="toc-link" href="#Table2">Table 2</a></li>''\<close>
  by (simp_all add: toc_item_def html_escape_def replace_char_def)

lemma sample_rows_no_warnings:
  "snd (render_rows sample_env True 1 ''table1'' [''a''] [''a''] r (replicate m [SStr ''x''])) = []"
  by (induction m arbitrary: r) (simp_all add: sample_row)

lemma sample_table_rows_no_warnings:
  "snd (table_rows_html sample_env True 1 (table_of_rows n) (replicate m [SStr ''x''])) = []"
  unfolding table_rows_html_def table_of_rows_sel list.map sample_table_id sample_labels
  by (rule sample_rows_no_warnings)


text \<open>
  For whatever the futures yield, the \<open>rows\<close> field of a result that has an output is the
  sum of the third components of the tuples collected (nothing for a task that raised).
\<close>

lemma rows_sum_of_outcomes:
  assumes "no_write_fault e (path_str out)"
  shows "r_rows (fst (render_from_outcomes e tables out cfg b ws outs fs))
           = Some (sum_list (map outcome_lines outs))"
  by (simp add: render_from_outcomes_ok [OF assms] collect_rows)



text \<open>
  C7. When writing the final document raises, \<open>render_html\<close> returns: the result carries
  the warnings accumulated so far followed by an error warning \<open>write_failed\<close>, no
  output, no table count and no row count, and the file at the output path is what it was
  before. The same holds from any list of outcomes; and whenever \<open>_default_write_atomic\<close>
  raises, for any writer, the destination is left as it was.
\<close>

theorem write_failure_returns_result:
  assumes "write_raises e (path_str out) err" and "\<not> splits cfg tables"
  shows "(\<exists>res fs'. render_html (Suc n) e tables out cfg b fs = Some (res, fs')
            \<and> r_warnings res
                = setup_warnings e @ replicate (length tables) task_failed_warning
                  @ [no_fragments_warning] @ snd (snd (inline_tables e 1 tables))
                  @ [mk_warning Error (''write_failed: '' @ err) None None None]
            \<and> r_output res = None \<and> r_tables res = None \<and> r_rows res = None
            \<and> r_parts res = None \<and> r_html res = None
            \<and> fs' (path_str out) = fs (path_str out))
       \<and> fst (render_from_outcomes e tables out cfg b ws outs fs)
           = \<lparr>r_warnings = accumulated e tables (collect_results e fs outs ws)
                           @ [mk_warning Error (''write_failed: '' @ err) None None None],
              r_tables = None, r_rows = None, r_parts = None, r_output = None, r_html = None\<rparr>
       \<and> snd (render_from_outcomes e tables out cfg b ws outs fs) (path_str out) = fs (path_str out)
       \<and> (write_error (fst (default_write_atomic e fs path w)) = None
          \<or> snd (default_write_atomic e fs path w) path = fs path)"
proof -
  note f = render_from_outcomes_fail [OF assms(1)]
  have 1: "\<exists>res fs'. render_html (Suc n) e tables out cfg b fs = Some (res, fs')
            \<and> r_warnings res
                = setup_warnings e @ replicate (length tables) task_failed_warning
                  @ [no_fragments_warning] @ snd (snd (inline_tables e 1 tables))
                  @ [mk_warning Error (''write_failed: '' @ err) None None None]
            \<and> r_output res = None \<and> r_tables res = None \<and> r_rows res = None
            \<and> r_parts res = None \<and> r_html res = None
            \<and> fs' (path_str out) = fs (path_str out)"
    using f [of tables cfg b "setup_warnings e" "submit_all tables" fs]
    by (simp add: render_html_direct [OF assms(2)] accumulated_submitted prod_eq_iff
        del: render_html.simps)
  have 2: "write_error (fst (default_write_atomic e fs path w)) = None
          \<or> snd (default_write_atomic e fs path w) path = fs path"
    by (auto simp: default_write_atomic_def Let_def split: option.splits)
  from 1 2 f [of tables cfg b ws outs fs] show ?thesis by blast
qed

theorem write_failure_returns_result_witness:
  "write_raises (sample_env\<lparr>open_fails := (\<lambda>p. Some ''denied'')\<rparr>) (path_str sample_out) ''denied''
   \<and> \<not> splits sample_cfg [table_of_rows 2]
   \<and> (\<exists>res fs'. render_html (Suc 0) (sample_env\<lparr>open_fails := (\<lambda>p. Some ''denied'')\<rparr>)
                    [table_of_rows 2] sample_out sample_cfg False Map.empty = Some (res, fs')
         \<and> r_output res = None \<and> r_tables res = None \<and> r_rows res = None
         \<and> fs' (path_str sample_out) = None)"
proof -
  have h1: "write_raises (sample_env\<lparr>open_fails := (\<lambda>p. Some ''denied'')\<rparr>) (path_str sample_out) ''denied''"
    by (simp add: write_raises_def)
  have h2: "\<not> splits sample_cfg [table_of_rows 2]" by (simp add: splits_def sample_cfg_def)
  note th = write_failure_returns_result [OF h1 h2, where n = 0 and b = False and fs = Map.empty]
  have "\<exists>res fs'. render_html (Suc 0) (sample_env\<lparr>open_fails := (\<lambda>p. Some ''denied'')\<rparr>)
                    [table_of_rows 2] sample_out sample_cfg False Map.empty = Some (res, fs')
         \<and> r_output res = None \<and> r_tables res = None \<and> r_rows res = None
         \<and> fs' (path_str sample_out) = None"
    using th by fastforce
  with h1 h2 show ?thesis by blast
qed





subsection \<open>Files written by a split\<close>

lemma write_frame:
  "q \<noteq> path \<Longrightarrow> q \<noteq> path @ ''.tmp'' \<Longrightarrow> snd (default_write_atomic e fs path w) q = fs q"
  by (auto simp: default_write_atomic_def Let_def split: option.splits)

lemma write_index_frame:
  "q \<noteq> path \<Longrightarrow> q \<noteq> path @ ''.tmp'' \<Longrightarrow> write_index e fs path text q = fs q"
  using write_frame [of q path e fs "(text, None)"]
  by (auto simp: write_index_def Let_def split: write_result.splits option.splits)

lemma cleanup_frame:
  assumes "\<not> prefix (out_dir out @ ''/.frags_'') q"
  shows "cleanup e out fs q = fs q"
proof (cases "take (Suc (length (tmp_frag_dir e out))) q = tmp_frag_dir e out @ ''/'' \<and> \<not> mkdir_frag_fails e")
  case True
  then have "prefix (tmp_frag_dir e out @ ''/'') q" by (metis take_is_prefix)
  then have "prefix (out_dir out @ ''/.frags_'') q"
    using True by (auto simp: tmp_frag_dir_def prefix_def)
  then show ?thesis using assms by simp
next
  case False
  then show ?thesis by (auto simp: cleanup_def rmtree_def tmp_frag_dir_def)
qed

lemma not_below_paths:
  assumes "\<not> below out q"
  shows "q \<noteq> path_str out @ x" and "q \<noteq> index_path out @ x"
    and "\<not> prefix (out_dir out @ ''/.frags_'') q"
  using assms by (auto simp: below_def path_str_def index_path_def prefix_def)

lemma render_from_outcomes_frame:
  assumes "\<not> below out q"
  shows "snd (render_from_outcomes e tables out cfg b ws outs fs) q = fs q"
proof -
  have 1: "q \<noteq> path_str out" using not_below_paths(1) [OF assms, of "[]"] by simp
  have 2: "q \<noteq> path_str out @ ''.tmp''" "q \<noteq> path_str out @ ''.gz''"
    using not_below_paths(1) [OF assms] by blast+
  note c = cleanup_frame [OF not_below_paths(3) [OF assms]]
  note w = write_frame [OF 1 2(1)]
  show ?thesis
    using 2(2) by (simp add: render_from_outcomes_def Let_def c w split: option.splits)
qed

lemma part_below: "below (part_path out k) q \<Longrightarrow> below out q"
  by (auto simp: below_def part_path_def prefix_def)

lemma run_parts_frame:
  assumes "\<And>g k s s'. render g (part_path out k) s = Some s' \<Longrightarrow> s' q = s q"
  shows "(case run_parts render out gs fs of Parts_done f \<Rightarrow> f | Parts_raised f \<Rightarrow> f) q = fs q"
proof (induction gs arbitrary: fs)
  case Nil
  then show ?case by simp
next
  case (Cons kg gs)
  obtain k g where kg: "kg = (k, g)" by (cases kg)
  show ?case
  proof (cases "render g (part_path out k) fs")
    case None
    then show ?thesis by (simp add: kg)
  next
    case (Some s')
    then show ?thesis using Cons.IH [of s'] assms [OF Some] by (simp add: kg)
  qed
qed

lemma render_html_frame:
  "render_html k e tables out cfg b fs = Some (res, fs') \<Longrightarrow> \<not> below out q \<Longrightarrow> fs' q = fs q"
proof (induction k arbitrary: tables out b fs res fs')
  case 0
  then show ?case by simp
next
  case (Suc k)
  show ?case
  proof (cases "splits cfg tables")
    case False
    then show ?thesis
      using Suc.prems(1)
        render_from_outcomes_frame [OF Suc.prems(2), of e tables cfg b "setup_warnings e"
          "submit_all tables" fs]
      by (auto simp: render_html_direct simp del: render_html.simps)
  next
    case True
    let ?r = "\<lambda>g p s. map_option snd (render_html k e g p cfg False s)"
    have ih: "\<And>g j s s'. ?r g (part_path out j) s = Some s' \<Longrightarrow> s' q = s q"
    proof -
      fix g j s s'
      assume "?r g (part_path out j) s = Some s'"
      then obtain r where "render_html k e g (part_path out j) cfg False s = Some (r, s')" by auto
      moreover have "\<not> below (part_path out j) q" using Suc.prems(2) part_below by blast
      ultimately show "s' q = s q" by (rule Suc.IH)
    qed
    have rp: "(case run_parts ?r out (split_parts (split_threshold cfg) tables) fs of
                 Parts_done f \<Rightarrow> f | Parts_raised f \<Rightarrow> f) q = fs q"
      by (rule run_parts_frame) (rule ih)
    have i: "q \<noteq> index_path out" "q \<noteq> index_path out @ ''.tmp''"
      using not_below_paths(2) [OF Suc.prems(2), of "[]"] not_below_paths(2) [OF Suc.prems(2)]
      by simp_all
    show ?thesis
    proof (cases "run_parts ?r out (split_parts (split_threshold cfg) tables) fs")
      case (Parts_done f)
      then have "fs' = write_index e f (index_path out)
                   (index_html (map (\<lambda>kg. part_file_name out (fst kg))
                                  (split_parts (split_threshold cfg) tables)))"
        using Suc.prems(1) by (simp add: render_html_split [OF True] del: render_html.simps)
      then show ?thesis using rp Parts_done write_index_frame [OF i] by simp
    next
      case (Parts_raised f)
      then have "fs' = snd (render_from_outcomes e tables out cfg b
                   (setup_warnings e @ [split_failed_warning recursion_error])
                   (submit_all tables) f)"
        using Suc.prems(1) by (simp add: render_html_split [OF True] del: render_html.simps)
      then show ?thesis
        using rp Parts_raised render_from_outcomes_frame [OF Suc.prems(2)] by simp
    qed
  qed
qed


lemma split_single: "split_parts T [t] = [(1, [t])]"
  by (simp add: split_parts_def)

lemma oversized_part:
  assumes "splits cfg [t]"
    and "render_html (Suc (Suc n)) e [t] out cfg b fs = Some (res, fs')"
  shows "q \<noteq> index_path out \<Longrightarrow> q \<noteq> index_path out @ ''.tmp'' \<Longrightarrow> \<not> below (part_path out 1) q
           \<Longrightarrow> fs' q = fs q"
    and "open_fails e (index_path out) = None
           \<Longrightarrow> fs' (index_path out) = Some (index_html [part_file_name out 1])"
proof -
  obtain fs1 where
    r: "render_html (Suc (Suc n)) e [t] out cfg b fs =
     Some (\<lparr>r_warnings = setup_warnings e, r_tables = Some (length [t]),
            r_rows = Some (sum_list (map count_rows [t])),
            r_parts = Some (map (\<lambda>kg. path_str (part_path out (fst kg)))
                              (split_parts (split_threshold cfg) [t])),
            r_output = None, r_html = None\<rparr>,
           write_index e fs1 (index_path out)
             (index_html (map (\<lambda>kg. part_file_name out (fst kg))
                            (split_parts (split_threshold cfg) [t]))))"
    and p: "run_parts (\<lambda>g p s. map_option snd (render_html (Suc n) e g p cfg False s)) out
          (split_parts (split_threshold cfg) [t]) fs = Parts_done fs1"
    using split_result [OF assms(1), of n e out b fs] by blast
  have f: "fs' = write_index e fs1 (index_path out) (index_html [part_file_name out 1])"
    using r assms(2) by (simp add: split_single del: render_html.simps)
  obtain r1 where c: "render_html (Suc n) e [t] (part_path out 1) cfg False fs = Some (r1, fs1)"
    using p render_html_returns [of n e "[t]" "part_path out 1" cfg False fs]
    by (auto simp: split_single simp del: render_html.simps)
  show "q \<noteq> index_path out \<Longrightarrow> q \<noteq> index_path out @ ''.tmp'' \<Longrightarrow> \<not> below (part_path out 1) q
           \<Longrightarrow> fs' q = fs q"
    using render_html_frame [OF c] by (simp add: f write_index_frame)
  show "open_fails e (index_path out) = None
           \<Longrightarrow> fs' (index_path out) = Some (index_html [part_file_name out 1])"
    by (simp add: f write_index_written)
qed

text \<open>
  C3. Three tables of 5, 10 and 5 rows under a threshold of 8 are cut into three groups of one
  table each, and the call (the interpreter allowing at least three nested calls, on a file
  system without write faults) returns the three part paths in order with \<open>rows = 20\<close> and
  writes an index linking the three part file names. The first and the third part file hold
  the document of their table. The second is never written: the call for it splits again (its
  own index, linking \<open>tables_part2_part1.html\<close>, is written), so the index links a part
  file that was not produced and the rows of the part files do not add up to the total.
\<close>

theorem split_lists_unwritten_part:
  assumes "open_fails e = (\<lambda>p. None)" and "replace_fails e = (\<lambda>p. None)"
  shows \<open>split_parts 8 [table_of_rows 5, table_of_rows 10, table_of_rows 5]
           = [(1, [table_of_rows 5]), (2, [table_of_rows 10]), (3, [table_of_rows 5])]
       \<and> (\<exists>res fs'. render_html (Suc (Suc (Suc n))) e [table_of_rows 5, table_of_rows 10, table_of_rows 5] sample_out
                         (cfg\<lparr>split_threshold := 8\<rparr>) b fs = Some (res, fs')
            \<and> r_parts res = Some [''out/tables_part1.html'', ''out/tables_part2.html'',
                                   ''out/tables_part3.html'']
            \<and> r_rows res = Some 20 \<and> r_tables res = Some 3 \<and> r_output res = None
            \<and> fs' ''out/tables_index.html''
                = Some (''<!DOCTYPE html><html><head><meta charset='' @ [CHR 0x27] @ ''utf-8'' @ [CHR 0x27]
                   @ ''><title>Index</title></head><body><h1>Parts</h1><ul>''
                   @ ''<li><a href="tables_part1.html">tables_part1.html</a></li>''
                   @ ''<li><a href="tables_part2.html">tables_part2.html</a></li>''
                   @ ''<li><a href="tables_part3.html">tables_part3.html</a></li>''
                   @ ''</ul></body></html>'')
            \<and> fs' ''out/tables_part1.html''
                = Some (document e (fst (snd (inline_tables e 1 [table_of_rows 5])))
                   (concat (map (\<lambda>piece. piece @ [CHR 0x0A]) (fst (inline_tables e 1 [table_of_rows 5])))))
            \<and> fs' ''out/tables_part2.html'' = fs ''out/tables_part2.html''
            \<and> fs' ''out/tables_part3.html''
                = Some (document e (fst (snd (inline_tables e 1 [table_of_rows 5])))
                   (concat (map (\<lambda>piece. piece @ [CHR 0x0A]) (fst (inline_tables e 1 [table_of_rows 5])))))
            \<and> fs' ''out/tables_part2_index.html''
                = Some (''<!DOCTYPE html><html><head><meta charset='' @ [CHR 0x27] @ ''utf-8'' @ [CHR 0x27]
                   @ ''><title>Index</title></head><body><h1>Parts</h1><ul>''
                   @ ''<li><a href="tables_part2_part1.html">tables_part2_part1.html</a></li>''
                   @ ''</ul></body></html>''))\<close>
proof -
  let ?cfg = "cfg\<lparr>split_threshold := 8\<rparr>"
  let ?P1 = "part_path sample_out 1" and ?P2 = "part_path sample_out 2" and ?P3 = "part_path sample_out 3"
  let ?r = "\<lambda>g p s. map_option snd (render_html (Suc (Suc n)) e g p ?cfg False s)"
  have nf: "\<And>p. no_write_fault e p" using assms by (simp add: no_write_fault_def)
  have sp: "split_parts 8 [table_of_rows 5, table_of_rows 10, table_of_rows 5]
           = [(1, [table_of_rows 5]), (2, [table_of_rows 10]), (3, [table_of_rows 5])]"
    by (simp add: split_parts_def)
  have s: "splits ?cfg [table_of_rows 5, table_of_rows 10, table_of_rows 5]" by (simp add: splits_def)
  have s5: "\<not> splits ?cfg [table_of_rows 5]" by (simp add: splits_def)
  have s10: "splits ?cfg [table_of_rows 10]" by (simp add: splits_def)
  have paths: "path_str ?P1 = ''out/tables_part1.html''" "path_str ?P2 = ''out/tables_part2.html''"
    "path_str ?P3 = ''out/tables_part3.html''" "index_path sample_out = ''out/tables_index.html''"
    "index_path ?P2 = ''out/tables_part2_index.html''"
    "part_file_name sample_out 1 = ''tables_part1.html''"
    "part_file_name sample_out 2 = ''tables_part2.html''"
    "part_file_name sample_out 3 = ''tables_part3.html''"
    "part_file_name ?P2 1 = ''tables_part2_part1.html''"
    "path_str (part_path sample_out (Suc 0)) = ''out/tables_part1.html''"
    "part_file_name sample_out (Suc 0) = ''tables_part1.html''"
    "part_file_name ?P2 (Suc 0) = ''tables_part2_part1.html''"
    by (simp_all add: path_str_def part_path_def index_path_def part_file_name_def sample_out_def
        show_nat.simps eval_nat_numeral)
  have sl: "\<And>k. CHR ''/'' \<notin> set (out_stem (part_path sample_out k) @ out_suffix (part_path sample_out k))"
  proof -
    fix k
    have "CHR ''/'' \<notin> set (show_nat k)"
      using show_nat_digits [of k] by (auto simp: list_all_iff is_digit_def)
    then show "CHR ''/'' \<notin> set (out_stem (part_path sample_out k) @ out_suffix (part_path sample_out k))"
      by (simp add: part_path_def sample_out_def)
  qed
  define f1 where "f1 = snd (render_from_outcomes e [table_of_rows 5] ?P1 ?cfg False (setup_warnings e)
                               (submit_all [table_of_rows 5]) fs)"
  have c1: "?r [table_of_rows 5] ?P1 fs = Some f1"
    by (simp add: render_html_direct [OF s5] f1_def del: render_html.simps)
  obtain r2 f2 where c2: "render_html (Suc (Suc n)) e [table_of_rows 10] ?P2 ?cfg False f1 = Some (r2, f2)"
    using render_html_returns by blast
  define f3 where "f3 = snd (render_from_outcomes e [table_of_rows 5] ?P3 ?cfg False (setup_warnings e)
                               (submit_all [table_of_rows 5]) f2)"
  have c3: "?r [table_of_rows 5] ?P3 f2 = Some f3"
    by (simp add: render_html_direct [OF s5] f3_def del: render_html.simps)
  have rp: "run_parts ?r sample_out
              [(1, [table_of_rows 5]), (2, [table_of_rows 10]), (3, [table_of_rows 5])] fs
            = Parts_done f3"
  proof -
    have c2': "?r [table_of_rows 10] ?P2 f1 = Some f2" by (simp only: c2 option.map snd_conv)
    show ?thesis by (simp only: run_parts.simps c1 c2' c3 option.case)
  qed
  define fs' where "fs' = write_index e f3 (index_path sample_out)
      (index_html [part_file_name sample_out 1, part_file_name sample_out 2, part_file_name sample_out 3])"
  have top: "render_html (Suc (Suc (Suc n))) e [table_of_rows 5, table_of_rows 10, table_of_rows 5] sample_out ?cfg b fs
      = Some (\<lparr>r_warnings = setup_warnings e, r_tables = Some 3, r_rows = Some 20,
               r_parts = Some [path_str ?P1, path_str ?P2, path_str ?P3],
               r_output = None, r_html = None\<rparr>, fs')"
    using rp by (simp add: render_html_split [OF s, of "Suc (Suc n)" e sample_out b fs] sp fs'_def
        del: render_html.simps)
  have doc: "\<And>k f. snd (render_from_outcomes e [table_of_rows 5] (part_path sample_out k) ?cfg False
                         (setup_warnings e) (submit_all [table_of_rows 5]) f)
                   (path_str (part_path sample_out k))
       = Some (document e (fst (snd (inline_tables e 1 [table_of_rows 5])))
                   (concat (map (\<lambda>piece. piece @ [CHR 0x0A]) (fst (inline_tables e 1 [table_of_rows 5])))))"
    by (simp add: render_from_outcomes_file [OF nf sl] assembled_def collect_submitted
        fallback_decision_def lines_of_def)
  have b1: "\<not> below ?P2 ''out/tables_part1.html''" "\<not> below ?P3 ''out/tables_part1.html''"
    "\<not> below ?P1 ''out/tables_part2.html''" "\<not> below ?P3 ''out/tables_part2.html''"
    "\<not> below (part_path ?P2 1) ''out/tables_part2.html''"
    "\<not> below ?P3 ''out/tables_part2_index.html''"
    "\<not> below (part_path ?P2 (Suc 0)) ''out/tables_part2.html''"
    by (simp_all add: below_def part_path_def sample_out_def show_nat.simps eval_nat_numeral)
  have i_top: "fs' ''out/tables_index.html''
                = Some (index_html [''tables_part1.html'', ''tables_part2.html'', ''tables_part3.html''])"
    using assms(1) by (simp add: fs'_def paths write_index_written)
  have top_frame: "\<And>q. q \<noteq> ''out/tables_index.html'' \<Longrightarrow> q \<noteq> ''out/tables_index.html.tmp''
                     \<Longrightarrow> fs' q = f3 q"
    by (simp add: fs'_def paths write_index_frame)
  have f3_frame: "\<And>q. \<not> below ?P3 q \<Longrightarrow> f3 q = f2 q"
    unfolding f3_def by (rule render_from_outcomes_frame)
  have f1_frame: "\<And>q. \<not> below ?P1 q \<Longrightarrow> f1 q = fs q"
    unfolding f1_def by (rule render_from_outcomes_frame)
  have v1: "fs' ''out/tables_part1.html'' = Some (document e (fst (snd (inline_tables e 1 [table_of_rows 5])))
                   (concat (map (\<lambda>piece. piece @ [CHR 0x0A]) (fst (inline_tables e 1 [table_of_rows 5])))))"
  proof -
    have "fs' ''out/tables_part1.html'' = f3 ''out/tables_part1.html''" by (rule top_frame) simp_all
    also have "\<dots> = f2 ''out/tables_part1.html''" by (rule f3_frame) (rule b1)
    also have "\<dots> = f1 ''out/tables_part1.html''" by (rule render_html_frame [OF c2]) (rule b1)
    also have "\<dots> = Some (document e (fst (snd (inline_tables e 1 [table_of_rows 5])))
                   (concat (map (\<lambda>piece. piece @ [CHR 0x0A]) (fst (inline_tables e 1 [table_of_rows 5])))))"
      using doc [of 1 fs] by (simp add: f1_def paths)
    finally show ?thesis .
  qed
  have v2: "fs' ''out/tables_part2.html'' = fs ''out/tables_part2.html''"
  proof -
    have "fs' ''out/tables_part2.html'' = f3 ''out/tables_part2.html''" by (rule top_frame) simp_all
    also have "\<dots> = f2 ''out/tables_part2.html''" by (rule f3_frame) (rule b1)
    also have "\<dots> = f1 ''out/tables_part2.html''"
      by (rule oversized_part(1) [OF s10 c2]) (simp_all add: paths b1)
    also have "\<dots> = fs ''out/tables_part2.html''" by (rule f1_frame) (rule b1)
    finally show ?thesis .
  qed
  have v3: "fs' ''out/tables_part3.html'' = Some (document e (fst (snd (inline_tables e 1 [table_of_rows 5])))
                   (concat (map (\<lambda>piece. piece @ [CHR 0x0A]) (fst (inline_tables e 1 [table_of_rows 5])))))"
  proof -
    have "fs' ''out/tables_part3.html'' = f3 ''out/tables_part3.html''" by (rule top_frame) simp_all
    also have "\<dots> = Some (document e (fst (snd (inline_tables e 1 [table_of_rows 5])))
                   (concat (map (\<lambda>piece. piece @ [CHR 0x0A]) (fst (inline_tables e 1 [table_of_rows 5])))))"
      using doc [of 3 f2] by (simp add: f3_def paths)
    finally show ?thesis .
  qed
  have v4: "fs' ''out/tables_part2_index.html'' = Some (index_html [''tables_part2_part1.html''])"
  proof -
    have "fs' ''out/tables_part2_index.html'' = f3 ''out/tables_part2_index.html''"
      by (rule top_frame) simp_all
    also have "\<dots> = f2 ''out/tables_part2_index.html''" by (rule f3_frame) (rule b1)
    also have "\<dots> = Some (index_html [''tables_part2_part1.html''])"
      using oversized_part(2) [OF s10 c2] assms(1) by (simp add: paths)
    finally show ?thesis .
  qed
  show ?thesis
    using top v1 v2 v3 v4 i_top
    by (simp add: sp paths index_html_def index_item_def del: render_html.simps)
qed


lemma sample_inline_one:
  "inline_tables sample_env 1 [df]
     = ([''<h3 id='' @ [CHR 0x27] @ ''Table1'' @ [CHR 0x27] @ ''>Table 1</h3>'' @ [CHR 0x0A]
           @ ''<p>(failed to render table)</p>''],
        [toc_item ''Table1'' ''Table 1''], [])"
  by (simp add: inline_piece_def inline_toc_item_def failed_piece_def table_heading_def Let_def
      show_nat.simps)

theorem split_lists_unwritten_part_witness:
  \<open>open_fails sample_env = (\<lambda>p. None) \<and> replace_fails sample_env = (\<lambda>p. None)
   \<and> (\<exists>res fs'. render_html (Suc (Suc (Suc 0))) sample_env [table_of_rows 5, table_of_rows 10, table_of_rows 5] sample_out
                    (sample_cfg\<lparr>split_threshold := 8\<rparr>) False Map.empty = Some (res, fs')
        \<and> r_parts res = Some [''out/tables_part1.html'', ''out/tables_part2.html'',
                               ''out/tables_part3.html'']
        \<and> r_rows res = Some 20
        \<and> fs' ''out/tables_index.html''
            = Some (''<!DOCTYPE html><html><head><meta charset='' @ [CHR 0x27] @ ''utf-8'' @ [CHR 0x27]
                   @ ''><title>Index</title></head><body><h1>Parts</h1><ul>''
                   @ ''<li><a href="tables_part1.html">tables_part1.html</a></li>''
                   @ ''<li><a href="tables_part2.html">tables_part2.html</a></li>''
                   @ ''<li><a href="tables_part3.html">tables_part3.html</a></li>''
                   @ ''</ul></body></html>'')
        \<and> fs' ''out/tables_part1.html'' = Some (document sample_env [''<li class="toc-item"><a class="toc-link" href="#Table1">Table 1</a></li>''] (''<h3 id='' @ [CHR 0x27] @ ''Table1'' @ [CHR 0x27] @ ''>Table 1</h3>'' @ [CHR 0x0A]
                    @ ''<p>(failed to render table)</p>'' @ [CHR 0x0A]))
        \<and> fs' ''out/tables_part2.html'' = None
        \<and> fs' ''out/tables_part3.html'' = Some (document sample_env [''<li class="toc-item"><a class="toc-link" href="#Table1">Table 1</a></li>''] (''<h3 id='' @ [CHR 0x27] @ ''Table1'' @ [CHR 0x27] @ ''>Table 1</h3>'' @ [CHR 0x0A]
                    @ ''<p>(failed to render table)</p>'' @ [CHR 0x0A])))\<close>
proof -
  have h1: "open_fails sample_env = (\<lambda>p. None)" by simp
  have h2: "replace_fails sample_env = (\<lambda>p. None)" by simp
  note th = split_lists_unwritten_part [OF h1 h2, where n = 0 and cfg = sample_cfg and b = False
      and fs = Map.empty]
  from th obtain res fs' where
    r: "render_html (Suc (Suc (Suc 0))) sample_env [table_of_rows 5, table_of_rows 10, table_of_rows 5] sample_out
          (sample_cfg\<lparr>split_threshold := 8\<rparr>) False Map.empty = Some (res, fs')"
    and p: "r_parts res = Some [''out/tables_part1.html'', ''out/tables_part2.html'',
                               ''out/tables_part3.html'']"
    and q: "r_rows res = Some 20"
    and i: \<open>fs' ''out/tables_index.html''
            = Some (''<!DOCTYPE html><html><head><meta charset='' @ [CHR 0x27] @ ''utf-8'' @ [CHR 0x27]
                   @ ''><title>Index</title></head><body><h1>Parts</h1><ul>''
                   @ ''<li><a href="tables_part1.html">tables_part1.html</a></li>''
                   @ ''<li><a href="tables_part2.html">tables_part2.html</a></li>''
                   @ ''<li><a href="tables_part3.html">tables_part3.html</a></li>''
                   @ ''</ul></body></html>'')\<close>
    and d1: "fs' ''out/tables_part1.html''
            = Some (document sample_env (fst (snd (inline_tables sample_env 1 [table_of_rows 5])))
                   (concat (map (\<lambda>piece. piece @ [CHR 0x0A]) (fst (inline_tables sample_env 1 [table_of_rows 5])))))"
    and d2: "fs' ''out/tables_part2.html'' = Map.empty ''out/tables_part2.html''"
    and d3: "fs' ''out/tables_part3.html''
            = Some (document sample_env (fst (snd (inline_tables sample_env 1 [table_of_rows 5])))
                   (concat (map (\<lambda>piece. piece @ [CHR 0x0A]) (fst (inline_tables sample_env 1 [table_of_rows 5])))))"
    by blast
  have d1': \<open>fs' ''out/tables_part1.html'' = Some (document sample_env [''<li class="toc-item"><a class="toc-link" href="#Table1">Table 1</a></li>''] (''<h3 id='' @ [CHR 0x27] @ ''Table1'' @ [CHR 0x27] @ ''>Table 1</h3>'' @ [CHR 0x0A]
                    @ ''<p>(failed to render table)</p>'' @ [CHR 0x0A]))\<close>
    using d1 unfolding sample_inline_one by (simp add: sample_toc_items)
  have d3': \<open>fs' ''out/tables_part3.html'' = Some (document sample_env [''<li class="toc-item"><a class="toc-link" href="#Table1">Table 1</a></li>''] (''<h3 id='' @ [CHR 0x27] @ ''Table1'' @ [CHR 0x27] @ ''>Table 1</h3>'' @ [CHR 0x0A]
                    @ ''<p>(failed to render table)</p>'' @ [CHR 0x0A]))\<close>
    using d3 unfolding sample_inline_one by (simp add: sample_toc_items)
  have d2': "fs' ''out/tables_part2.html'' = None" using d2 by simp
  from h1 h2 r p q i d1' d2' d3' show ?thesis by blast
qed

end
